theory Spec2Isabelle
  imports Complex_Main "HOL-Library.Sublist"
begin

section \<open>Python values, exceptions and the external libraries\<close>

text \<open>
  The notebook \<^verbatim>\<open>Data_Preparation.ipynb\<close> is embedded function by function. Every
  exception a statement can raise is a value of \<open>py_error\<close>; a function that can raise
  returns \<open>py_error + 'a\<close>, with \<open>Inl\<close> for the exception. Times and sample values are
  Python floats; they are modelled by exact rationals, so that comparisons and the
  sums \<open>onset + duration\<close> are the mathematical ones.
\<close>

datatype py_error =
    NameError | UnboundLocalError | AttributeError | TypeError | ValueError
  | KeyError | IndexError | ZeroDivisionError | MergeError | MemoryError
  | LibraryError | PyException string

text \<open>One event of \<^verbatim>\<open>raw.annotations\<close>: the keys the notebook reads.\<close>

record annotation =
  onset :: rat
  duration :: rat
  description :: string

text \<open>
  The transformations of MNE that \<^verbatim>\<open>preprocess\<close> applies to a recording in place. The
  signal itself is not modelled: a recording carries the list of transformations
  applied to it so far.
\<close>

datatype mne_op =
    SetChannelTypes
  | SetMontage string
  | NotchFilter "rat list"
  | BandPass rat rat
  | SetEEGReference string
  | Resample rat

record raw =
  ch_names :: "string list"
  sfreq :: rat
  last_samp :: nat
  annotations :: "annotation list"
  applied :: "mne_op list"

text \<open>One row of the table \<^verbatim>\<open>df_sz_annotations\<close> (columns onset, duration, end).\<close>

record sz_interval =
  sz_onset :: rat
  sz_duration :: rat
  sz_end :: rat

subsection \<open>Tables\<close>

text \<open>
  A pandas \<^verbatim>\<open>DataFrame\<close> is its columns in order, each a name and the cells of the
  rows from top to bottom; the index is the row position, so \<^verbatim>\<open>reset_index(drop=True)\<close>
  changes nothing. A cell is a number, the missing value \<^verbatim>\<open>NaN\<close>, a string, or (in
  the reshaped table) an array of numbers.
\<close>

datatype cell = Num rat | NaN | Str string | Arr "rat option list"

type_synonym frame = "(string \<times> cell list) list"

definition columns :: "frame \<Rightarrow> string list" where
  "columns df = map fst df"

text \<open>\<^verbatim>\<open>df.shape[0]\<close>, the number of rows.\<close>

definition nrows :: "frame \<Rightarrow> nat" where
  "nrows df = (case df of [] \<Rightarrow> 0 | (name, c) # rest \<Rightarrow> length c)"

text \<open>In a \<^verbatim>\<open>DataFrame\<close> every column has one cell per row.\<close>

definition wf_frame :: "frame \<Rightarrow> bool" where
  "wf_frame df = list_all (\<lambda>(n, c). length c = nrows df) df"

text \<open>\<^verbatim>\<open>df[name]\<close>: a column that is not there raises \<^verbatim>\<open>KeyError\<close>.\<close>

definition getcol :: "frame \<Rightarrow> string \<Rightarrow> py_error + cell list" where
  "getcol df name = (case map_of df name of None \<Rightarrow> Inl KeyError | Some c \<Rightarrow> Inr c)"

text \<open>\<^verbatim>\<open>df[name] = values\<close>: replaces the column where it is, or adds it at the end.\<close>

definition setcol :: "frame \<Rightarrow> string \<Rightarrow> cell list \<Rightarrow> frame" where
  "setcol df name c =
     (if name \<in> set (columns df)
      then map (\<lambda>(n, old). if n = name then (n, c) else (n, old)) df
      else df @ [(name, c)])"

text \<open>\<^verbatim>\<open>df.drop(columns=names)\<close>: a name that is not a column raises \<^verbatim>\<open>KeyError\<close>.\<close>

definition dropcols :: "frame \<Rightarrow> string list \<Rightarrow> py_error + frame" where
  "dropcols df names =
     (if list_all (\<lambda>n. n \<in> set (columns df)) names
      then Inr (filter (\<lambda>(n, c). n \<notin> set names) df)
      else Inl KeyError)"

text \<open>The rows at the given positions, in that order (\<^verbatim>\<open>df.loc[mask]\<close>, \<^verbatim>\<open>df.take\<close>).\<close>

definition rows_at :: "frame \<Rightarrow> nat list \<Rightarrow> frame" where
  "rows_at df idx = map (\<lambda>(n, c). (n, map (\<lambda>i. c ! i) idx)) df"

text \<open>The positions of the rows whose cell in the column satisfies the test.\<close>

definition positions :: "(cell \<Rightarrow> bool) \<Rightarrow> cell list \<Rightarrow> nat list" where
  "positions P c = filter (\<lambda>i. P (c ! i)) [0..<length c]"

text \<open>
  \<^verbatim>\<open>pd.concat([a, b], axis=0)\<close> for two tables with the same columns in the same
  order: the rows of \<open>b\<close> below those of \<open>a\<close>.
\<close>

definition concat_frames :: "frame \<Rightarrow> frame \<Rightarrow> frame" where
  "concat_frames a b = map (\<lambda>((n, c), (m, d)). (n, c @ d)) (zip a b)"

text \<open>The numbers of a column, without the missing values.\<close>

fun num_values :: "cell list \<Rightarrow> rat list" where
  "num_values [] = []"
| "num_values (Num r # cs) = r # num_values cs"
| "num_values (c # cs) = num_values cs"

subsection \<open>The libraries\<close>

text \<open>
  What the notebook takes from MNE, NumPy and pandas and what is not in the
  repository: reading a file, loading its samples (which can raise
  \<^verbatim>\<open>MemoryError\<close>), whether a transformation raises on a recording, and the
  positions that \<^verbatim>\<open>sample(n=N, random_state=42)\<close> draws: \<open>choice m n\<close> are the
  \<open>n\<close> positions drawn without replacement from \<open>m\<close> rows with the seed 42;
  \<open>float32\<close> is the rounding of a number to single precision, \<open>round2\<close> the
  rounding to two decimals, \<open>resampled_last_samp\<close> the number of the last sample
  after resampling to a rate, \<open>epochs_to_data_frame\<close> the table that
  \<^verbatim>\<open>mne.make_fixed_length_epochs(raw, duration, overlap).to_data_frame()\<close>
  gives (or the exception it raises), and \<open>to_feather\<close> the writing of a table to a
  path.
\<close>

record library =
  read_raw_edf :: "string \<Rightarrow> py_error + raw"
  load_data :: "raw \<Rightarrow> py_error + raw"
  mne_raises :: "mne_op \<Rightarrow> raw \<Rightarrow> bool"
  choice :: "nat \<Rightarrow> nat \<Rightarrow> nat list"
  float32 :: "rat \<Rightarrow> rat"
  round2 :: "rat \<Rightarrow> rat"
  resampled_last_samp :: "raw \<Rightarrow> rat \<Rightarrow> nat"
  epochs_to_data_frame :: "raw \<Rightarrow> rat \<Rightarrow> rat \<Rightarrow> py_error + frame"
  to_feather :: "string \<Rightarrow> frame \<Rightarrow> py_error + unit"

section \<open>Seizure Interval Extractor: \<^verbatim>\<open>seizure_annotations\<close>\<close>

definition seizure_marker :: string where
  "seizure_marker = ''AANVAL''"

text \<open>
  \<^verbatim>\<open>raw.annotations[raw.annotations.description == 'AANVAL']\<close> keeps, in their order,
  the events whose description is equal to the marker; \<^verbatim>\<open>raw.set_annotations\<close> replaces
  the recording's events by them; the table has one row per kept event and the column
  \<^verbatim>\<open>end\<close> is the sum of the other two. The function returns the table; the changed
  recording is the first component of the model's result.
\<close>

definition seizure_annotations :: "raw \<Rightarrow> raw \<times> sz_interval list" where
  "seizure_annotations r =
     (let sz_annotations = filter (\<lambda>a. description a = seizure_marker) (annotations r);
          r' = r\<lparr>annotations := sz_annotations\<rparr>;
          df_sz_annotations =
            map (\<lambda>a. \<lparr>sz_onset = onset a, sz_duration = duration a,
                       sz_end = onset a + duration a\<rparr>) sz_annotations
      in (r', df_sz_annotations))"

section \<open>Selection: \<^verbatim>\<open>load_raw\<close>\<close>

text \<open>
  \<^verbatim>\<open>'AANVAL' in ann['description']\<close> is Python's substring test: the marker occurs
  as a contiguous block of the description.
\<close>

definition py_in :: "string \<Rightarrow> string \<Rightarrow> bool" where
  "py_in needle hay = sublist needle hay"

text \<open>
  The test made under \<^verbatim>\<open>if seizure_files_only:\<close>: a recording none of whose
  descriptions contains the marker raises.
\<close>

definition no_seizures_check :: "raw \<Rightarrow> py_error + raw" where
  "no_seizures_check r =
     (if \<not> list_ex (\<lambda>ann. py_in seizure_marker (description ann)) (annotations r)
      then Inl (PyException ''Recording has no seizures... exiting'')
      else Inr r)"

text \<open>The body of the \<^verbatim>\<open>try\<close> block of \<^verbatim>\<open>load_raw\<close>.\<close>

definition load_raw_try :: "library \<Rightarrow> string \<Rightarrow> bool \<Rightarrow> bool \<Rightarrow> py_error + raw" where
  "load_raw_try L file seizure_files_only loading =
     (case read_raw_edf L file of
        Inl e \<Rightarrow> Inl e
      | Inr r \<Rightarrow>
          (case (if seizure_files_only then no_seizures_check r else Inr r) of
             Inl e \<Rightarrow> Inl e
           | Inr r' \<Rightarrow> if loading then load_data L r' else Inr r'))"

text \<open>
  \<^verbatim>\<open>except Exception as e: print(...)\<close>: the function then ends without a
  \<^verbatim>\<open>return\<close>, so the caller gets \<^verbatim>\<open>None\<close>.
\<close>

definition load_raw :: "library \<Rightarrow> string \<Rightarrow> bool \<Rightarrow> bool \<Rightarrow> raw option" where
  "load_raw L file seizure_files_only loading =
     (case load_raw_try L file seizure_files_only loading of
        Inl e \<Rightarrow> None
      | Inr r \<Rightarrow> Some r)"

section \<open>The names bound in the notebook\<close>

text \<open>
  A function of the notebook reads the names \<^verbatim>\<open>np\<close>, \<^verbatim>\<open>pd\<close>, \<^verbatim>\<open>mne\<close> and so
  on in the global namespace when it runs, and raises \<^verbatim>\<open>NameError\<close> for a name
  that is not bound there. The global namespace is a parameter \<open>g\<close> of the model: the
  list of the bound names. The first code cell binds
  \<^verbatim>\<open>platform, os, gc, numpy, pd, mne\<close> (it imports NumPy as \<^verbatim>\<open>numpy\<close>, not as
  \<^verbatim>\<open>np\<close>) and the second one \<^verbatim>\<open>eeg_channels\<close>; the function definitions bind
  their own names.
\<close>

definition notebook_globals :: "string list" where
  "notebook_globals =
     [''platform'', ''os'', ''gc'', ''numpy'', ''pd'', ''mne'', ''eeg_channels'',
      ''preprocess'', ''seizure_annotations'', ''create_epochs'', ''labeling'',
      ''reshape_df'', ''epochs_seizure_based'', ''extract_subject_id'', ''df_conversion'',
      ''define_paths'', ''load_raw'', ''loading'', ''preprocessing'']"

definition lookup :: "string list \<Rightarrow> string \<Rightarrow> py_error + unit" where
  "lookup g name = (if name \<in> set g then Inr () else Inl NameError)"

definition eeg_channels :: "string list" where
  "eeg_channels =
     [''Fp1'', ''Fp2'', ''F3'',
      ''F4'', ''F7'', ''F8'',
      ''Fz'', ''C3'', ''C4'',
      ''Cz'', ''T3'', ''T4'',
      ''T5'', ''T6'', ''P3'',
      ''P4'', ''Pz'', ''O1'', ''O2'']"

section \<open>Statements, \<^verbatim>\<open>try\<close> and \<^verbatim>\<open>except\<close>\<close>

text \<open>
  The notebook's functions change a recording or a table in place inside a
  \<^verbatim>\<open>try\<close> block and return the object after the \<^verbatim>\<open>except\<close> clause has
  printed the exception. A statement therefore maps a state to the state it reaches
  and the exception it raised there, if any; a sequence stops at the first exception
  and keeps what the statements before it did.
\<close>

type_synonym 's stmt = "'s \<Rightarrow> py_error option \<times> 's"

fun seq :: "'s stmt list \<Rightarrow> 's stmt" where
  "seq [] s = (None, s)"
| "seq (c # cs) s =
     (case c s of
        (Some e, s') \<Rightarrow> (Some e, s')
      | (None, s') \<Rightarrow> seq cs s')"

text \<open>A call that either raises and changes nothing, or returns the changed state.\<close>

definition call :: "('s \<Rightarrow> py_error + 's) \<Rightarrow> 's stmt" where
  "call f s = (case f s of Inl e \<Rightarrow> (Some e, s) | Inr s' \<Rightarrow> (None, s'))"

section \<open>Normalizer: \<^verbatim>\<open>preprocess\<close>\<close>

text \<open>
  A method of MNE called on the recording: it raises when the library says so, and
  otherwise the transformation is recorded; resampling also sets the sampling rate and
  the number of the last sample.
\<close>

definition apply_op :: "library \<Rightarrow> mne_op \<Rightarrow> raw \<Rightarrow> raw" where
  "apply_op L op r =
     (case op of
        Resample f \<Rightarrow>
          r\<lparr>sfreq := f, last_samp := resampled_last_samp L r f, applied := applied r @ [op]\<rparr>
      | other \<Rightarrow> r\<lparr>applied := applied r @ [op]\<rparr>)"

definition mne_call :: "library \<Rightarrow> mne_op \<Rightarrow> raw \<Rightarrow> py_error + raw" where
  "mne_call L op r = (if mne_raises L op r then Inl LibraryError else Inr (apply_op L op r))"

text \<open>
  \<^verbatim>\<open>np.arange(start, stop, step)\<close> for natural numbers: the name \<^verbatim>\<open>np\<close> is
  looked up first.
\<close>

definition np_arange :: "string list \<Rightarrow> nat \<Rightarrow> nat \<Rightarrow> nat \<Rightarrow> py_error + rat list" where
  "np_arange g start stop step =
     (case lookup g ''np'' of
        Inl e \<Rightarrow> Inl e
      | Inr u \<Rightarrow>
          if step = 0 then Inl ZeroDivisionError
          else Inr (map (\<lambda>k. of_nat (start + k * step))
                      [0..<(stop - start + step - 1) div step]))"

text \<open>What \<^verbatim>\<open>preprocess\<close> prints.\<close>

datatype log_line =
    CleanedAndFiltered
  | SamplingFrequencyIs int
  | ResampledTo256
  | Printed py_error

definition say :: "log_line \<Rightarrow> (raw \<times> log_line list) stmt" where
  "say l = (\<lambda>(r, out). (None, (r, out @ [l])))"

definition on_raw :: "(raw \<Rightarrow> py_error + raw) \<Rightarrow> (raw \<times> log_line list) stmt" where
  "on_raw f = (\<lambda>(r, out). case f r of Inl e \<Rightarrow> (Some e, (r, out)) | Inr r' \<Rightarrow> (None, (r', out)))"

text \<open>\<^verbatim>\<open>int(x)\<close> of a float: the fractional part is cut off.\<close>

definition py_int :: "rat \<Rightarrow> int" where
  "py_int x = (if 0 \<le> x then \<lfloor>x\<rfloor> else \<lceil>x\<rceil>)"

text \<open>
  The \<^verbatim>\<open>try\<close> block of \<^verbatim>\<open>preprocess\<close>. The argument \<^verbatim>\<open>np.arange(50,101,50)\<close>
  is evaluated before \<^verbatim>\<open>notch_filter\<close> is called. The rate is read once, before
  the \<^verbatim>\<open>if\<close>.
\<close>

definition preprocess_try :: "string list \<Rightarrow> library \<Rightarrow> (raw \<times> log_line list) stmt" where
  "preprocess_try g L =
     seq [on_raw (mne_call L SetChannelTypes),
          on_raw (mne_call L (SetMontage ''standard_1020'')),
          on_raw (\<lambda>r. case np_arange g 50 101 50 of
                         Inl e \<Rightarrow> Inl e
                       | Inr freqs \<Rightarrow> mne_call L (NotchFilter freqs) r),
          on_raw (mne_call L (BandPass (1 / 10) 70)),
          on_raw (mne_call L (SetEEGReference ''average'')),
          say CleanedAndFiltered,
          (\<lambda>(r, out).
             if sfreq r \<noteq> 256
             then seq [say (SamplingFrequencyIs (py_int (sfreq r))),
                       on_raw (mne_call L (Resample 256)),
                       say ResampledTo256] (r, out)
             else (None, (r, out)))]"

text \<open>
  \<^verbatim>\<open>preprocess\<close>: an exception of the block is printed, and the recording is
  returned as it is then. The result is the recording and what was printed.
\<close>

definition preprocess :: "string list \<Rightarrow> library \<Rightarrow> raw \<Rightarrow> raw \<times> log_line list" where
  "preprocess g L r =
     (case preprocess_try g L (r, []) of
        (None, (r', out)) \<Rightarrow> (r', out)
      | (Some e, (r', out)) \<Rightarrow> (r', out @ [Printed e]))"

section \<open>Epoching Engine: \<^verbatim>\<open>create_epochs\<close>\<close>

text \<open>
  \<^verbatim>\<open>df.epochs.columns\<close> in the test of \<^verbatim>\<open>create_epochs\<close>. The function has no
  variable \<^verbatim>\<open>df\<close> (its table is \<^verbatim>\<open>df_epochs\<close>), so the global one is read.
  Unbound, it raises \<^verbatim>\<open>NameError\<close>. The only global \<^verbatim>\<open>df\<close> the notebook binds is
  the table of the recording processed before, a \<^verbatim>\<open>DataFrame\<close> with the columns
  \<^verbatim>\<open>subject\<close>, \<^verbatim>\<open>epoch\<close>, the channels and \<^verbatim>\<open>seizure\<close>, which has no attribute
  \<^verbatim>\<open>epochs\<close>: \<^verbatim>\<open>AttributeError\<close>. Either way no list of columns is obtained.
\<close>

definition global_df_epochs_columns :: "string list \<Rightarrow> py_error + string list" where
  "global_df_epochs_columns g =
     (case lookup g ''df'' of
        Inl e \<Rightarrow> Inl e
      | Inr u \<Rightarrow> Inl AttributeError)"

text \<open>\<^verbatim>\<open>df_epochs[eeg_cols].mean(axis=1)\<close>: for each row the mean of its numbers.\<close>

definition row_mean :: "cell list \<Rightarrow> cell" where
  "row_mean cs =
     (let vs = num_values cs
      in if vs = [] then NaN else Num (sum_list vs / of_nat (length vs)))"

definition fill_pz :: "frame \<Rightarrow> frame" where
  "fill_pz df_epochs =
     (let eeg_cols = filter (\<lambda>(col, c). col \<noteq> ''count'') df_epochs
      in setcol df_epochs ''Pz''
           (map (\<lambda>i. row_mean (map (\<lambda>(col, c). c ! i) eeg_cols)) [0..<nrows df_epochs]))"

text \<open>\<^verbatim>\<open>df_epochs[col] = df_epochs[col].round(2)\<close> for one channel.\<close>

definition round_column :: "library \<Rightarrow> string \<Rightarrow> frame \<Rightarrow> py_error + frame" where
  "round_column L col df_epochs =
     (case getcol df_epochs col of
        Inl e \<Rightarrow> Inl e
      | Inr c \<Rightarrow>
          Inr (setcol df_epochs col
                 (map (\<lambda>x. case x of Num r \<Rightarrow> Num (round2 L r) | other \<Rightarrow> other) c)))"

text \<open>
  The statements of the \<^verbatim>\<open>try\<close> block after the table \<^verbatim>\<open>df_epochs\<close> has been
  made: the column \<^verbatim>\<open>condition\<close> is dropped, the time \<^verbatim>\<open>count\<close> of a row is its
  position divided by 256, then the test for \<^verbatim>\<open>Pz\<close> and the rounding of the
  channels.
\<close>

definition create_epochs_try :: "string list \<Rightarrow> library \<Rightarrow> frame stmt" where
  "create_epochs_try g L =
     seq ([call (\<lambda>df_epochs. dropcols df_epochs [''condition'']),
           call (\<lambda>df_epochs.
             Inr (setcol df_epochs ''count''
                    (map (\<lambda>i. Num (of_nat i / 256)) [0..<nrows df_epochs]))),
           (\<lambda>df_epochs.
              case global_df_epochs_columns g of
                Inl e \<Rightarrow> (Some e, df_epochs)
              | Inr cols \<Rightarrow>
                  if ''Pz'' \<notin> set cols then (None, fill_pz df_epochs)
                  else (None, df_epochs))]
          @ map (\<lambda>col. call (round_column L col)) eeg_channels)"

text \<open>
  \<^verbatim>\<open>create_epochs\<close>. The epochs and their table come from MNE
  (\<^verbatim>\<open>make_fixed_length_epochs\<close>, \<^verbatim>\<open>to_data_frame\<close>); when that raises, the
  \<^verbatim>\<open>except\<close> clause prints and \<^verbatim>\<open>return df_epochs\<close> raises
  \<^verbatim>\<open>UnboundLocalError\<close>. Otherwise the table is returned as the block left it.
\<close>

definition create_epochs :: "string list \<Rightarrow> library \<Rightarrow> raw \<Rightarrow> rat \<Rightarrow> rat \<Rightarrow> py_error + frame" where
  "create_epochs g L r duration' overlap =
     (case epochs_to_data_frame L r duration' overlap of
        Inl e \<Rightarrow> Inl UnboundLocalError
      | Inr df_epochs \<Rightarrow> Inr (snd (create_epochs_try g L df_epochs)))"

section \<open>Labeling: \<^verbatim>\<open>labeling\<close>\<close>

text \<open>
  The numbers of a column that holds numbers only. A key column of \<^verbatim>\<open>merge_asof\<close>
  must be such a column.
\<close>

fun num_cells :: "cell list \<Rightarrow> rat list option" where
  "num_cells [] = Some []"
| "num_cells (Num r # cs) = map_option (\<lambda>rs. r # rs) (num_cells cs)"
| "num_cells (c # cs) = None"

text \<open>The cells a column of floats can hold: a number or \<^verbatim>\<open>NaN\<close>.\<close>

fun float_cell :: "cell \<Rightarrow> bool" where
  "float_cell (Num r) = True"
| "float_cell NaN = True"
| "float_cell c = False"

text \<open>
  The backward as-of match (the default direction, exact matches allowed): among the
  rows of the right table, which is sorted by onset, the last one whose onset is not
  after \<open>t\<close>; no such row gives no match.
\<close>

definition asof_backward :: "sz_interval list \<Rightarrow> rat \<Rightarrow> sz_interval option" where
  "asof_backward right t =
     (case filter (\<lambda>iv. sz_onset iv \<le> t) right of
        [] \<Rightarrow> None
      | m # ms \<Rightarrow> Some (last (m # ms)))"

text \<open>A cell of a right column in the merged row: \<^verbatim>\<open>NaN\<close> where there is no match.\<close>

definition right_cell :: "(sz_interval \<Rightarrow> rat) \<Rightarrow> sz_interval option \<Rightarrow> cell" where
  "right_cell f m = (case m of None \<Rightarrow> NaN | Some iv \<Rightarrow> Num (f iv))"

text \<open>A column name that both tables have gets the table's suffix.\<close>

definition suffix_clash :: "string list \<Rightarrow> string \<Rightarrow> string \<Rightarrow> string" where
  "suffix_clash others sfx n = (if n \<in> set others then n @ sfx else n)"

text \<open>
  \<^verbatim>\<open>pd.merge_asof(df_epochs, df_sz_annotations, left_on='count', right_on='onset')\<close>.
  pandas raises \<^verbatim>\<open>KeyError\<close> without the key column, \<^verbatim>\<open>MergeError\<close> when the
  two keys do not have the same numeric type (a key column with a string or an array;
  the table made from no event at all, whose columns have the type \<^verbatim>\<open>object\<close>),
  and \<^verbatim>\<open>ValueError\<close> for a missing value in the left key and for a key that is not
  sorted. The merged table has the rows of the left table, with the columns of the
  matched right row added.
\<close>

definition merge_asof :: "frame \<Rightarrow> sz_interval list \<Rightarrow> py_error + frame" where
  "merge_asof left right =
     (case getcol left ''count'' of
        Inl e \<Rightarrow> Inl e
      | Inr key \<Rightarrow>
          (case num_cells key of
             None \<Rightarrow> if list_all float_cell key \<and> right \<noteq> []
                     then Inl ValueError else Inl MergeError
           | Some ts \<Rightarrow>
               if right = [] then Inl MergeError
               else if \<not> sorted ts then Inl ValueError
               else if \<not> sorted (map sz_onset right) then Inl ValueError
               else
                 (let matched = map (asof_backward right) ts
                  in Inr (map (\<lambda>(n, c). (suffix_clash [''onset'', ''duration'', ''end''] ''_x'' n, c)) left
                          @ [(suffix_clash (columns left) ''_y'' ''onset'', map (right_cell sz_onset) matched),
                             (suffix_clash (columns left) ''_y'' ''duration'', map (right_cell sz_duration) matched),
                             (suffix_clash (columns left) ''_y'' ''end'', map (right_cell sz_end) matched)]))))"

text \<open>
  The comparison of two cells of numeric columns: a comparison with \<^verbatim>\<open>NaN\<close> is
  false.
\<close>

fun cell_le :: "cell \<Rightarrow> cell \<Rightarrow> bool" where
  "cell_le (Num a) (Num b) = (a \<le> b)"
| "cell_le c d = False"

text \<open>
  \<^verbatim>\<open>labeling\<close>: the merge, the column \<^verbatim>\<open>seizure\<close> set to 0, then to 1 in the rows
  where \<^verbatim>\<open>count >= onset\<close> and \<^verbatim>\<open>count <= end\<close>, and the three helper columns
  dropped.
\<close>

definition labeling :: "frame \<Rightarrow> sz_interval list \<Rightarrow> py_error + frame" where
  "labeling df_epochs df_sz_annotations =
     (case merge_asof df_epochs df_sz_annotations of
        Inl e \<Rightarrow> Inl e
      | Inr df \<Rightarrow>
          (let df0 = setcol df ''seizure'' (replicate (nrows df) (Num 0)) in
           case getcol df0 ''count'' of
             Inl e \<Rightarrow> Inl e
           | Inr cnt \<Rightarrow>
               (case getcol df0 ''onset'' of
                  Inl e \<Rightarrow> Inl e
                | Inr ons \<Rightarrow>
                    (case getcol df0 ''end'' of
                       Inl e \<Rightarrow> Inl e
                     | Inr ends \<Rightarrow>
                         (case getcol df0 ''seizure'' of
                            Inl e \<Rightarrow> Inl e
                          | Inr old \<Rightarrow>
                              dropcols
                                (setcol df0 ''seizure''
                                   (map (\<lambda>(s, c, on, en).
                                           if cell_le on c \<and> cell_le c en then Num 1 else s)
                                      (zip old (zip cnt (zip ons ends)))))
                                [''count'', ''onset'', ''end''])))))"

section \<open>Reshaping: \<^verbatim>\<open>reshape_df\<close>\<close>

text \<open>A function applied to each element in turn; the first exception ends the loop.\<close>

fun traverse :: "('a \<Rightarrow> py_error + 'b) \<Rightarrow> 'a list \<Rightarrow> py_error + 'b list" where
  "traverse f [] = Inr []"
| "traverse f (x # xs) =
     (case f x of
        Inl e \<Rightarrow> Inl e
      | Inr y \<Rightarrow> (case traverse f xs of Inl e \<Rightarrow> Inl e | Inr ys \<Rightarrow> Inr (y # ys)))"

text \<open>
  \<^verbatim>\<open>df.groupby('epoch')\<close>: the groups are the different values of the column, in
  ascending order; a group holds the rows with that value, in their order. A table
  without rows has no group, and a function applied to the groups is applied to
  nothing.
\<close>

definition group_keys :: "cell list \<Rightarrow> rat list" where
  "group_keys epoch = sort (remdups (num_values epoch))"

definition group_of :: "cell list \<Rightarrow> cell list \<Rightarrow> rat \<Rightarrow> cell list" where
  "group_of epoch col k = map snd (filter (\<lambda>(e, v). e = Num k) (zip epoch col))"

text \<open>
  \<^verbatim>\<open>np.array(x.tolist(), dtype=np.float32)\<close>: the name \<^verbatim>\<open>np\<close> is looked up when
  the function is applied to a group; the numbers are converted to single precision by
  the library's \<open>float32\<close>.
\<close>

definition float32_array :: "string list \<Rightarrow> library \<Rightarrow> cell list \<Rightarrow> py_error + cell" where
  "float32_array g L x =
     (case lookup g ''np'' of
        Inl e \<Rightarrow> Inl e
      | Inr u \<Rightarrow>
          if list_all float_cell x
          then Inr (Arr (map (\<lambda>c. case c of Num r \<Rightarrow> Some (float32 L r) | other \<Rightarrow> None) x))
          else Inl ValueError)"

text \<open>
  \<^verbatim>\<open>x.mode()\<close>: the values that occur most often among the values that are not
  missing, in ascending order (pandas sorts the modes). \<^verbatim>\<open>.iat[0]\<close> is the first
  of them, and raises \<^verbatim>\<open>IndexError\<close> when there is none.
\<close>

definition series_mode :: "cell list \<Rightarrow> rat list" where
  "series_mode x =
     (let vs = num_values x
      in sort (filter (\<lambda>v. list_all (\<lambda>w. count_list vs w \<le> count_list vs v) vs) (remdups vs)))"

definition iat0 :: "rat list \<Rightarrow> py_error + cell" where
  "iat0 s = (case s of [] \<Rightarrow> Inl IndexError | v # rest \<Rightarrow> Inr (Num v))"

text \<open>The loop over \<^verbatim>\<open>eeg_channels\<close> that fills \<^verbatim>\<open>agg\<close>.\<close>

fun agg_channels ::
  "string list \<Rightarrow> library \<Rightarrow> frame \<Rightarrow> string list \<Rightarrow> py_error + frame" where
  "agg_channels g L df [] = Inr []"
| "agg_channels g L df (channel # rest) =
     (case getcol df ''epoch'' of
        Inl e \<Rightarrow> Inl e
      | Inr epoch \<Rightarrow>
          (case getcol df channel of
             Inl e \<Rightarrow> Inl e
           | Inr col \<Rightarrow>
               (case traverse (float32_array g L) (map (group_of epoch col) (group_keys epoch)) of
                  Inl e \<Rightarrow> Inl e
                | Inr arrays \<Rightarrow>
                    (case agg_channels g L df rest of
                       Inl e \<Rightarrow> Inl e
                     | Inr others \<Rightarrow> Inr ((channel, arrays) # others)))))"

text \<open>
  \<^verbatim>\<open>df.groupby('epoch')['seizure'].apply(lambda x: x.mode().iat[0])\<close>: the keys and
  the label of each group.
\<close>

definition seizure_label :: "frame \<Rightarrow> py_error + (rat list \<times> cell list)" where
  "seizure_label df =
     (case getcol df ''epoch'' of
        Inl e \<Rightarrow> Inl e
      | Inr epoch \<Rightarrow>
          (case getcol df ''seizure'' of
             Inl e \<Rightarrow> Inl e
           | Inr seizure \<Rightarrow>
               (case traverse (\<lambda>x. iat0 (series_mode x))
                       (map (group_of epoch seizure) (group_keys epoch)) of
                  Inl e \<Rightarrow> Inl e
                | Inr labels \<Rightarrow> Inr (group_keys epoch, labels))))"

text \<open>
  \<^verbatim>\<open>reshape_df\<close>: one row per epoch; the columns are the epoch (the index of the
  grouped table, made a column by \<^verbatim>\<open>reset_index\<close>), one array per channel and
  the label.
\<close>

definition reshape_df :: "string list \<Rightarrow> library \<Rightarrow> frame \<Rightarrow> py_error + frame" where
  "reshape_df g L df =
     (case agg_channels g L df eeg_channels of
        Inl e \<Rightarrow> Inl e
      | Inr agg \<Rightarrow>
          (case seizure_label df of
             Inl e \<Rightarrow> Inl e
           | Inr (keys, labels) \<Rightarrow>
               Inr ((''epoch'', map Num keys) # setcol agg ''seizure'' labels)))"

text \<open>
  The reading of the specification: of the values that occur most often, the one that
  occurs first among the samples.
\<close>

definition spec_first_occurring_mode :: "cell list \<Rightarrow> cell option" where
  "spec_first_occurring_mode x =
     find (\<lambda>v. list_all (\<lambda>w. count_list x w \<le> count_list x v) x) x"

section \<open>Class Balancer: \<^verbatim>\<open>epochs_seizure_based\<close>\<close>

text \<open>
  The rows with label 1, the count \<open>N\<close> of them, \<open>N\<close> rows drawn from the rows with
  label 0, and the two tables one below the other. \<^verbatim>\<open>sample\<close> raises
  \<^verbatim>\<open>ValueError\<close> when asked for more rows than there are.
\<close>

definition epochs_seizure_based :: "library \<Rightarrow> frame \<Rightarrow> py_error + frame" where
  "epochs_seizure_based L df =
     (case getcol df ''seizure'' of
        Inl e \<Rightarrow> Inl e
      | Inr seizure \<Rightarrow>
          (let df_sz_epochs = rows_at df (positions (\<lambda>c. c = Num 1) seizure);
               N = nrows df_sz_epochs;
               pool = rows_at df (positions (\<lambda>c. c = Num 0) seizure)
           in if nrows pool < N then Inl ValueError
              else Inr (concat_frames df_sz_epochs (rows_at pool (choice L (nrows pool) N)))))"

section \<open>Export: \<^verbatim>\<open>extract_subject_id\<close> and \<^verbatim>\<open>df_conversion\<close>\<close>

text \<open>
  The functions of \<^verbatim>\<open>os.path\<close> and of \<^verbatim>\<open>str\<close> that the export uses, for POSIX
  paths: \<^verbatim>\<open>os.path.join\<close> of two parts, \<^verbatim>\<open>str.rfind\<close> of a character (\<open>-1\<close>
  when it does not occur), the first component of \<^verbatim>\<open>os.path.splitext\<close> (the
  extension starts at the last dot of the last component, unless only dots come before
  it there), \<^verbatim>\<open>str.split\<close> at a character and \<^verbatim>\<open>str.join\<close>.
\<close>

definition path_join :: "string \<Rightarrow> string \<Rightarrow> string" where
  "path_join a b =
     (if b \<noteq> [] \<and> hd b = CHR ''/'' then b
      else if a = [] \<or> last a = CHR ''/'' then a @ b
      else a @ ''/'' @ b)"

definition rfind :: "char \<Rightarrow> string \<Rightarrow> int" where
  "rfind c p =
     (case filter (\<lambda>i. p ! i = c) (rev [0..<length p]) of
        [] \<Rightarrow> - 1
      | i # rest \<Rightarrow> int i)"

definition splitext_root :: "string \<Rightarrow> string" where
  "splitext_root p =
     (let sepIndex = rfind CHR ''/'' p;
          dotIndex = rfind CHR ''.'' p
      in if sepIndex < dotIndex
            \<and> list_ex (\<lambda>i. p ! i \<noteq> CHR ''.'') [nat (sepIndex + 1)..<nat dotIndex]
         then take (nat dotIndex) p
         else p)"

fun split_on :: "char \<Rightarrow> string \<Rightarrow> string list" where
  "split_on c [] = [[]]"
| "split_on c (x # xs) =
     (if x = c then [] # split_on c xs
      else (case split_on c xs of
              [] \<Rightarrow> [[x]]
            | p # ps \<Rightarrow> (x # p) # ps))"

fun join_with :: "string \<Rightarrow> string list \<Rightarrow> string" where
  "join_with sep [] = []"
| "join_with sep [p] = p"
| "join_with sep (p # q # ps) = p @ sep @ join_with sep (q # ps)"

text \<open>
  \<^verbatim>\<open>extract_subject_id\<close>: \<^verbatim>\<open>parts[-2]\<close> raises \<^verbatim>\<open>IndexError\<close> when there are
  fewer than two parts; \<^verbatim>\<open>parts[2:-2]\<close> and \<^verbatim>\<open>parts[2:-1]\<close> are the parts from
  position 2 on without the last two, or without the last one.
\<close>

definition extract_subject_id :: "string \<Rightarrow> py_error + string" where
  "extract_subject_id output_filename =
     (let parts = split_on CHR ''_'' (splitext_root output_filename)
      in if length parts < 2 then Inl IndexError
         else if py_in ''epoched'' (parts ! (length parts - 2))
         then Inr (join_with ''_'' (drop 2 (take (length parts - 2) parts)))
         else Inr (join_with ''_'' (drop 2 (take (length parts - 1) parts))))"

text \<open>
  \<^verbatim>\<open>df_conversion\<close>: the column \<^verbatim>\<open>subject\<close> is inserted in front
  (\<^verbatim>\<open>DataFrame.insert\<close> raises \<^verbatim>\<open>ValueError\<close> when the table has the column
  already) and the table is written. The result is the path and the table written.
\<close>

definition df_conversion :: "library \<Rightarrow> frame \<Rightarrow> string \<Rightarrow> string \<Rightarrow> py_error + string \<times> frame" where
  "df_conversion L df output_folder output_filename =
     (let output_path = path_join output_folder output_filename
      in case extract_subject_id output_filename of
           Inl e \<Rightarrow> Inl e
         | Inr subject_id \<Rightarrow>
             if ''subject'' \<in> set (columns df) then Inl ValueError
             else
               (let df' = (''subject'', replicate (nrows df) (Str subject_id)) # df
                in case to_feather L output_path df' of
                     Inl e \<Rightarrow> Inl e
                   | Inr u \<Rightarrow> Inr (output_path, df')))"

section \<open>Pipeline Driver: \<^verbatim>\<open>loading\<close>, \<^verbatim>\<open>preprocessing\<close> and the loop over the files\<close>

definition loading :: "library \<Rightarrow> string \<Rightarrow> string \<Rightarrow> bool \<Rightarrow> raw option" where
  "loading L data_path file ld = load_raw L (path_join data_path file) True ld"

text \<open>
  The statements of \<^verbatim>\<open>preprocessing\<close> up to \<^verbatim>\<open>reshape_df\<close>. The argument is
  \<^verbatim>\<open>None\<close> when \<^verbatim>\<open>load_raw\<close> has printed an exception: \<^verbatim>\<open>preprocess\<close> then
  prints the \<^verbatim>\<open>AttributeError\<close> of its first statement and returns \<^verbatim>\<open>None\<close>, and
  \<^verbatim>\<open>seizure_annotations\<close> raises \<^verbatim>\<open>AttributeError\<close>. The recording passed to
  \<^verbatim>\<open>create_epochs\<close> is the one whose events \<^verbatim>\<open>seizure_annotations\<close> has
  replaced.
\<close>

definition reshaped_epochs :: "string list \<Rightarrow> library \<Rightarrow> raw option \<Rightarrow> py_error + frame" where
  "reshaped_epochs g L raw_opt =
     (case raw_opt of
        None \<Rightarrow> Inl AttributeError
      | Some raw0 \<Rightarrow>
          (let raw1 = fst (preprocess g L raw0);
               raw2 = fst (seizure_annotations raw1);
               sz = snd (seizure_annotations raw1)
           in case create_epochs g L raw2 10 0 of
                Inl e \<Rightarrow> Inl e
              | Inr epochs \<Rightarrow>
                  (case labeling epochs sz of
                     Inl e \<Rightarrow> Inl e
                   | Inr df \<Rightarrow> reshape_df g L df)))"

definition preprocessing :: "string list \<Rightarrow> library \<Rightarrow> raw option \<Rightarrow> py_error + frame" where
  "preprocessing g L raw_opt =
     (case reshaped_epochs g L raw_opt of
        Inl e \<Rightarrow> Inl e
      | Inr df \<Rightarrow> epochs_seizure_based L df)"

text \<open>
  One round of the loop over the files: the file written, or nothing when the
  \<^verbatim>\<open>except\<close> clause has printed an exception. The folder of the output is a
  parameter here (the setting up of the paths is not part of the model).
\<close>

definition driver_step ::
  "string list \<Rightarrow> library \<Rightarrow> string \<Rightarrow> string \<Rightarrow> string \<Rightarrow> (string \<times> frame) option" where
  "driver_step g L data_path output_folder file =
     (case preprocessing g L (loading L data_path file True) of
        Inl e \<Rightarrow> None
      | Inr df \<Rightarrow>
          (case df_conversion L df output_folder (splitext_root file @ ''_epoched.feather'') of
             Inl e \<Rightarrow> None
           | Inr written \<Rightarrow> Some written))"

section \<open>Oversized recordings: the table of the epochs\<close>

text \<open>
  The cell for the large files, from the table \<open>df\<close> of the concatenated epochs on
  (\<^verbatim>\<open>df = epochs.to_data_frame()\<close>), with \<open>N\<close> the number of seizures: the column
  \<^verbatim>\<open>condition\<close> is dropped, every row gets the label 0, the table is reshaped and
  \<open>N\<close> of its rows are drawn. The epochs that the cell concatenates are those of the
  recordings cropped at the drawn interictal intervals; it crops at no seizure. As it
  is written the cell does not reach these statements: its first statement calls
  \<^verbatim>\<open>loading\<close> with the keyword \<^verbatim>\<open>loadig\<close>, the names \<^verbatim>\<open>df_sz_annotations\<close>,
  \<^verbatim>\<open>seizure\<close>, \<^verbatim>\<open>random\<close> and \<^verbatim>\<open>tqdm\<close> are not bound, and in the call of
  \<^verbatim>\<open>drop\<close> the keyword \<^verbatim>\<open>inplace\<close> stands inside the list of the columns.
\<close>

definition large_file_table :: "string list \<Rightarrow> library \<Rightarrow> frame \<Rightarrow> nat \<Rightarrow> py_error + frame" where
  "large_file_table g L df N =
     (case dropcols df [''condition''] of
        Inl e \<Rightarrow> Inl e
      | Inr df1 \<Rightarrow>
          (case reshape_df g L (setcol df1 ''seizure'' (replicate (nrows df1) (Num 0))) of
             Inl e \<Rightarrow> Inl e
           | Inr df2 \<Rightarrow>
               if nrows df2 < N then Inl ValueError
               else Inr (rows_at df2 (choice L (nrows df2) N))))"

section \<open>Oversized recordings: the interictal intervals\<close>

text \<open>One row of \<^verbatim>\<open>intervals_df\<close> (columns start, end, label).\<close>

record interval =
  iv_start :: rat
  iv_end :: rat
  iv_label :: string

text \<open>
  The construction of \<^verbatim>\<open>intervals_df\<close> from the table of the seizures and the
  recording. The loop writes one row per seizure: from 0 to the onset of the first one,
  and from the end of the seizure before to the onset of each later one. Then one more
  row is added: it starts at \<^verbatim>\<open>seizures.iloc[-1, 1]\<close>, the cell of the last row in
  the column at position 1, which is the column \<^verbatim>\<open>duration\<close>, and ends at
  \<^verbatim>\<open>raw.last_samp / raw.info['sfreq'] - 1\<close>. Every row gets the label
  \<^verbatim>\<open>interictal\<close>. \<^verbatim>\<open>iloc[-1, 1]\<close> raises \<^verbatim>\<open>IndexError\<close> on a table without
  rows, the division raises \<^verbatim>\<open>ZeroDivisionError\<close> for the rate 0.
\<close>

definition interictal_intervals :: "sz_interval list \<Rightarrow> raw \<Rightarrow> py_error + interval list" where
  "interictal_intervals seizures r =
     (let gaps =
            map (\<lambda>x. if x = 0 then (0, sz_onset (seizures ! x))
                      else (sz_end (seizures ! (x - 1)), sz_onset (seizures ! x)))
              [0..<length seizures]
      in if seizures = [] then Inl IndexError
         else if sfreq r = 0 then Inl ZeroDivisionError
         else
           (let last_start = sz_duration (last seizures);
                last_end = of_nat (last_samp r) / sfreq r - 1
            in Inr (map (\<lambda>(s, e). \<lparr>iv_start = s, iv_end = e, iv_label = ''interictal''\<rparr>)
                      (gaps @ [(last_start, last_end)]))))"

text \<open>
  The reading of the specification: the gap before the first seizure, the gaps between
  consecutive seizures, and the gap after the last seizure up to the end of the
  recording.
\<close>

definition spec_interictal :: "sz_interval list \<Rightarrow> rat \<Rightarrow> (rat \<times> rat) list" where
  "spec_interictal seizures recording_end =
     (0, sz_onset (hd seizures))
     # map (\<lambda>(a, b). (sz_end a, sz_onset b)) (zip seizures (tl seizures))
     @ [(sz_end (last seizures), recording_end)]"

section \<open>Example recordings\<close>

text \<open>
  A recording with one seizure event of ten seconds at second 12 and one other event;
  a recording whose only events are described as \<^verbatim>\<open>AANVAL?\<close> and
  \<^verbatim>\<open>einde AANVAL\<close>; and a recording with no event at all.
\<close>

definition raw_one_seizure :: raw where
  "raw_one_seizure =
     \<lparr>ch_names = [''Fp1'', ''Fp2''], sfreq = 256, last_samp = 10239,
      annotations = [\<lparr>onset = 12, duration = 10, description = ''AANVAL''\<rparr>,
                     \<lparr>onset = 30, duration = 5, description = ''artefact''\<rparr>],
      applied = []\<rparr>"

definition raw_marker_inside :: raw where
  "raw_marker_inside =
     \<lparr>ch_names = [''Fp1'', ''Fp2''], sfreq = 256, last_samp = 10239,
      annotations = [\<lparr>onset = 12, duration = 10, description = ''AANVAL?''\<rparr>,
                     \<lparr>onset = 22, duration = 0, description = ''einde AANVAL''\<rparr>],
      applied = []\<rparr>"

definition raw_no_events :: raw where
  "raw_no_events =
     \<lparr>ch_names = [''Fp1'', ''Fp2''], sfreq = 256, last_samp = 10239,
      annotations = [], applied = []\<rparr>"

text \<open>
  A library that reads every file as the given recording, loads it as it is, raises in
  no transformation, draws the last \<open>n\<close> of \<open>m\<close> positions, the last first,
  rounds no number, makes no epochs and writes every table.
\<close>

definition reads_as :: "raw \<Rightarrow> library" where
  "reads_as r =
     \<lparr>read_raw_edf = (\<lambda>file. Inr r), load_data = (\<lambda>x. Inr x),
      mne_raises = (\<lambda>op x. False), choice = (\<lambda>m n. rev (drop (m - n) [0..<m])),
      float32 = (\<lambda>x. x), round2 = (\<lambda>x. x), resampled_last_samp = (\<lambda>x f. last_samp x),
      epochs_to_data_frame = (\<lambda>x duration overlap. Inl ValueError),
      to_feather = (\<lambda>path df. Inr ())\<rparr>"

text \<open>A reshaped table of four epochs, one of them a seizure epoch.\<close>

definition balanced_example :: frame where
  "balanced_example =
     [(''epoch'', [Num 0, Num 1, Num 2, Num 3]),
      (''Fp1'', [Arr [Some 1], Arr [Some 2], Arr [Some 3], Arr [Some 4]]),
      (''seizure'', [Num 0, Num 1, Num 0, Num 0])]"

text \<open>A table of samples of one channel at the times 11.5, 12, 22 and 22.5 seconds.\<close>

definition samples_example :: frame where
  "samples_example =
     [(''time'', [Num 0, Num 1, Num 2, Num 3]),
      (''epoch'', [Num 1, Num 1, Num 2, Num 2]),
      (''Fp1'', [Num 4, Num 5, Num 6, Num 7]),
      (''count'', [Num (23 / 2), Num 12, Num 22, Num (45 / 2)])]"

text \<open>
  A labelled table of samples with the given epoch and label columns, in which every
  sample of every channel is 0.
\<close>

definition flat_samples :: "cell list \<Rightarrow> cell list \<Rightarrow> frame" where
  "flat_samples epoch seizure =
     (''epoch'', epoch) # map (\<lambda>ch. (ch, map (\<lambda>c. Num 0) epoch)) eeg_channels
     @ [(''seizure'', seizure)]"

text \<open>A recording sampled at 512 Hz.\<close>

definition raw_512 :: raw where
  "raw_512 =
     \<lparr>ch_names = [''Fp1'', ''Fp2''], sfreq = 512, last_samp = 20479,
      annotations = [\<lparr>onset = 12, duration = 10, description = ''AANVAL''\<rparr>],
      applied = []\<rparr>"

text \<open>The same library, with the given table as the table of the epochs.\<close>

definition with_epochs :: "library \<Rightarrow> frame \<Rightarrow> library" where
  "with_epochs L df = L\<lparr>epochs_to_data_frame := (\<lambda>x duration overlap. Inr df)\<rparr>"

text \<open>
  The table of the epochs of a recording that has the channels \<^verbatim>\<open>Fp1\<close> and
  \<^verbatim>\<open>Fp2\<close> and not \<^verbatim>\<open>Pz\<close>: three samples.
\<close>

definition epochs_without_pz :: frame where
  "epochs_without_pz =
     [(''time'', [Num 0, Num (1 / 256), Num (2 / 256)]),
      (''condition'', [Str ''1'', Str ''1'', Str ''1'']),
      (''epoch'', [Num 0, Num 0, Num 0]),
      (''Fp1'', [Num (1234 / 1000), Num 2, Num 3]),
      (''Fp2'', [Num (3456 / 1000), Num 4, Num 5])]"

text \<open>
  A recording with the nineteen channels whose only seizure lasts three seconds, and
  the table of its epochs, cut down to two samples of the first epoch.
\<close>

definition raw_short_seizure :: raw where
  "raw_short_seizure =
     \<lparr>ch_names = eeg_channels, sfreq = 256, last_samp = 10239,
      annotations = [\<lparr>onset = 3, duration = 3, description = ''AANVAL''\<rparr>],
      applied = []\<rparr>"

definition epochs_all_channels :: "cell list \<Rightarrow> frame" where
  "epochs_all_channels epoch =
     [(''time'', map (\<lambda>c. Num 0) epoch),
      (''condition'', map (\<lambda>c. Str ''1'') epoch),
      (''epoch'', epoch)]
     @ map (\<lambda>ch. (ch, map (\<lambda>c. Num 0) epoch)) eeg_channels"

definition lib_short_seizure :: library where
  "lib_short_seizure =
     with_epochs (reads_as raw_short_seizure) (epochs_all_channels [Num 0, Num 0])"

section \<open>Properties of the extractor and of the selection\<close>

text \<open>
  Claim C6. The extractor keeps exactly the events whose description equals the
  marker, in their order: the onsets and durations of the returned rows are those of
  the kept events, every row's end is its onset plus its duration, the recording's
  events are replaced by the kept ones, a recording with no such event gives the empty
  table, and events ordered by onset give rows ordered by onset.
\<close>

theorem seizure_annotations_exact:
  "map sz_onset (snd (seizure_annotations r))
     = map onset (filter (\<lambda>a. description a = ''AANVAL'') (annotations r))
   \<and> map sz_duration (snd (seizure_annotations r))
     = map duration (filter (\<lambda>a. description a = ''AANVAL'') (annotations r))
   \<and> (\<forall>iv \<in> set (snd (seizure_annotations r)). sz_end iv = sz_onset iv + sz_duration iv)
   \<and> annotations (fst (seizure_annotations r))
     = filter (\<lambda>a. description a = ''AANVAL'') (annotations r)
   \<and> ((\<forall>a \<in> set (annotations r). description a \<noteq> ''AANVAL'')
        \<longrightarrow> snd (seizure_annotations r) = [])
   \<and> (sorted (map onset (annotations r))
        \<longrightarrow> sorted (map sz_onset (snd (seizure_annotations r))))"
proof -
  let ?kept = "filter (\<lambda>a. description a = ''AANVAL'') (annotations r)"
  have on: "map sz_onset (snd (seizure_annotations r)) = map onset ?kept"
    by (simp add: seizure_annotations_def seizure_marker_def Let_def comp_def)
  have du: "map sz_duration (snd (seizure_annotations r)) = map duration ?kept"
    by (simp add: seizure_annotations_def seizure_marker_def Let_def comp_def)
  have en: "\<forall>iv \<in> set (snd (seizure_annotations r)). sz_end iv = sz_onset iv + sz_duration iv"
    by (auto simp: seizure_annotations_def Let_def)
  have an: "annotations (fst (seizure_annotations r)) = ?kept"
    by (simp add: seizure_annotations_def seizure_marker_def Let_def)
  have em: "(\<forall>a \<in> set (annotations r). description a \<noteq> ''AANVAL'')
              \<longrightarrow> snd (seizure_annotations r) = []"
    by (auto simp: seizure_annotations_def seizure_marker_def Let_def filter_empty_conv)
  have so: "sorted (map onset (annotations r))
              \<longrightarrow> sorted (map sz_onset (snd (seizure_annotations r)))"
  proof
    assume "sorted (map onset (annotations r))"
    then have "sorted (map onset ?kept)"
      by (rule sorted_filter)
    with on show "sorted (map sz_onset (snd (seizure_annotations r)))"
      by simp
  qed
  from on du en an em so show ?thesis
    by blast
qed


theorem seizure_annotations_exact_witness:
  "sorted (map onset (annotations raw_one_seizure))
   \<and> sorted (map sz_onset (snd (seizure_annotations raw_one_seizure)))
   \<and> list_all (\<lambda>iv. sz_end iv = sz_onset iv + sz_duration iv)
         (snd (seizure_annotations raw_one_seizure))
   \<and> map sz_onset (snd (seizure_annotations raw_one_seizure)) = [12]
   \<and> list_all (\<lambda>a. description a \<noteq> ''AANVAL'') (annotations raw_marker_inside)
   \<and> snd (seizure_annotations raw_marker_inside) = []"
proof -
  have s: "sorted (map onset (annotations raw_one_seizure))"
    by (simp add: raw_one_seizure_def)
  have n: "\<forall>a \<in> set (annotations raw_marker_inside). description a \<noteq> ''AANVAL''"
    by (simp add: raw_marker_inside_def)
  have o: "map onset (filter (\<lambda>a. description a = ''AANVAL'') (annotations raw_one_seizure)) = [12]"
    by (simp add: raw_one_seizure_def)
  from s n o seizure_annotations_exact [of raw_one_seizure]
    seizure_annotations_exact [of raw_marker_inside]
  show ?thesis
    by (simp add: list_all_iff)
qed

text \<open>
  Claim C10. A recording that has events, each of whose descriptions contains the
  marker without being equal to it, passes the selection of \<^verbatim>\<open>load_raw\<close> with
  \<^verbatim>\<open>seizure_files_only=True\<close>: the test does not raise its exception, the
  \<^verbatim>\<open>try\<close> block goes on to the optional loading, and without loading the recording
  is returned. The extractor then returns the empty table for it.
\<close>

theorem selection_accepts_extraction_empty:
  assumes "read_raw_edf L file = Inr r"
    and "annotations r \<noteq> []"
    and "\<forall>a \<in> set (annotations r).
           py_in ''AANVAL'' (description a) \<and> description a \<noteq> ''AANVAL''"
  shows "no_seizures_check r = Inr r
         \<and> load_raw_try L file True ld = (if ld then load_data L r else Inr r)
         \<and> load_raw L file True False = Some r
         \<and> snd (seizure_annotations r) = []"
proof -
  from assms(2) obtain a where a: "a \<in> set (annotations r)"
    by (cases "annotations r") auto
  with assms(3) have "py_in ''AANVAL'' (description a)"
    by blast
  with a have "list_ex (\<lambda>ann. py_in seizure_marker (description ann)) (annotations r)"
    unfolding list_ex_iff seizure_marker_def by blast
  then have chk: "no_seizures_check r = Inr r"
    by (simp add: no_seizures_check_def)
  with assms(1) have body:
    "load_raw_try L file True ld = (if ld then load_data L r else Inr r)"
    by (simp add: load_raw_try_def)
  from assms(1) chk have ret: "load_raw L file True False = Some r"
    by (simp add: load_raw_def load_raw_try_def)
  from assms(3) have "filter (\<lambda>a. description a = seizure_marker) (annotations r) = []"
    by (simp add: filter_empty_conv seizure_marker_def)
  then have ext: "snd (seizure_annotations r) = []"
    by (simp add: seizure_annotations_def Let_def)
  from chk body ret ext show ?thesis
    by blast
qed

theorem selection_accepts_extraction_empty_witness:
  "read_raw_edf (reads_as raw_marker_inside) ''EXP_EMC_M15_0000099#01.edf'' = Inr raw_marker_inside
   \<and> annotations raw_marker_inside \<noteq> []
   \<and> list_all (\<lambda>a. py_in ''AANVAL'' (description a) \<and> description a \<noteq> ''AANVAL'')
         (annotations raw_marker_inside)
   \<and> load_raw (reads_as raw_marker_inside) ''EXP_EMC_M15_0000099#01.edf'' True False
        = Some raw_marker_inside
   \<and> snd (seizure_annotations raw_marker_inside) = []"
proof -
  have r: "read_raw_edf (reads_as raw_marker_inside) ''EXP_EMC_M15_0000099#01.edf''
             = Inr raw_marker_inside"
    by (simp add: reads_as_def)
  have n: "annotations raw_marker_inside \<noteq> []"
    by (simp add: raw_marker_inside_def)
  have c: "\<forall>a \<in> set (annotations raw_marker_inside).
             py_in ''AANVAL'' (description a) \<and> description a \<noteq> ''AANVAL''"
    by (simp add: raw_marker_inside_def py_in_def sublist_code)
  from selection_accepts_extraction_empty [OF r n c] r n c show ?thesis
    by (simp add: list_all_iff)
qed

text \<open>A recording without any event is refused by the selection.\<close>

lemma no_events_refused:
  "annotations r = [] \<Longrightarrow>
   no_seizures_check r = Inl (PyException ''Recording has no seizures... exiting'')"
  by (simp add: no_seizures_check_def)

section \<open>Properties of the tables and of the balancer\<close>

lemma getcol_rows_at:
  "getcol df n = Inr c \<Longrightarrow> getcol (rows_at df idx) n = Inr (map (\<lambda>i. c ! i) idx)"
  by (induction df) (auto simp: getcol_def rows_at_def split: option.splits if_splits)

lemma nrows_rows_at: "df \<noteq> [] \<Longrightarrow> nrows (rows_at df idx) = length idx"
  by (cases df) (auto simp: nrows_def rows_at_def)

lemma getcol_nonempty: "getcol df n = Inr c \<Longrightarrow> df \<noteq> []"
  by (auto simp: getcol_def)

lemma rows_at_rows_at:
  "list_all (\<lambda>i. i < length a) b \<Longrightarrow> rows_at (rows_at df a) b = rows_at df (map (\<lambda>i. a ! i) b)"
  by (induction df) (auto simp: rows_at_def list_all_iff)

lemma concat_rows_at: "concat_frames (rows_at df a) (rows_at df b) = rows_at df (a @ b)"
  by (induction df) (auto simp: rows_at_def concat_frames_def)

lemma map_nth_positions: "map (\<lambda>i. c ! i) (positions P c) = filter P c"
proof -
  have "map (\<lambda>i. c ! i) (filter (\<lambda>i. P (c ! i)) [0..<length c]) = filter P (map (\<lambda>i. c ! i) [0..<length c])"
    by (simp add: filter_map comp_def)
  then show ?thesis by (simp add: positions_def map_nth)
qed

lemma length_positions: "length (positions P c) = length (filter P c)"
  using map_nth_positions [of c P] by (metis length_map)

lemma positions_bound: "i \<in> set (positions P c) \<Longrightarrow> i < length c \<and> P (c ! i)"
  by (auto simp: positions_def)

lemma distinct_positions: "distinct (positions P c)"
  by (simp add: positions_def)

lemma sorted_positions: "sorted (positions P c)"
  by (simp add: positions_def sorted_wrt_filter)

lemma map_const_replicate: "\<forall>x \<in> set xs. f x = v \<Longrightarrow> map f xs = replicate (length xs) v"
  by (induction xs) auto

lemma filter_eq_replicate: "filter (\<lambda>c. c = v) xs = replicate (length (filter (\<lambda>c. c = v) xs)) v"
  by (induction xs) auto

text \<open>
  Claim C1. A table whose label column has \<open>N > 0\<close> cells equal to 1 and at least
  \<open>N\<close> cells equal to 0 is balanced without an exception, provided the draw gives
  \<open>N\<close> different positions among the rows with label 0: the result consists of the
  rows with label 1 in their order followed by the \<open>N\<close> drawn rows with label 0,
  all of them different rows of the input, so that its label column is \<open>N\<close> ones
  followed by \<open>N\<close> zeros.
\<close>

theorem balancer_equal_counts:
  assumes col: "getcol df ''seizure'' = Inr seizure"
    and N: "length (filter (\<lambda>c. c = Num 1) seizure) = N" "0 < N"
    and enough: "N \<le> length (filter (\<lambda>c. c = Num 0) seizure)"
    and drawn: "length (choice L (length (filter (\<lambda>c. c = Num 0) seizure)) N) = N"
      "list_all (\<lambda>i. i < length (filter (\<lambda>c. c = Num 0) seizure))
         (choice L (length (filter (\<lambda>c. c = Num 0) seizure)) N)"
      "distinct (choice L (length (filter (\<lambda>c. c = Num 0) seizure)) N)"
  shows "\<exists>out idx.
           epochs_seizure_based L df = Inr out
         \<and> idx = positions (\<lambda>c. c = Num 1) seizure
                 @ map (\<lambda>i. positions (\<lambda>c. c = Num 0) seizure ! i)
                     (choice L (length (filter (\<lambda>c. c = Num 0) seizure)) N)
         \<and> out = rows_at df idx
         \<and> distinct idx
         \<and> getcol out ''seizure'' = Inr (replicate N (Num 1) @ replicate N (Num 0))
         \<and> length (filter (\<lambda>c. c = Num 1) (replicate N (Num 1) @ replicate N (Num 0))) = N
         \<and> length (filter (\<lambda>c. c = Num 0) (replicate N (Num 1) @ replicate N (Num 0))) = N"
proof -
  let ?p1 = "positions (\<lambda>c. c = Num 1) seizure"
  let ?p0 = "positions (\<lambda>c. c = Num 0) seizure"
  let ?m = "length (filter (\<lambda>c. c = Num 0) seizure)"
  let ?ch = "choice L ?m N"
  let ?idx = "?p1 @ map (\<lambda>i. ?p0 ! i) ?ch"
  have ne: "df \<noteq> []"
    using col by (rule getcol_nonempty)
  have n1: "nrows (rows_at df ?p1) = N"
    using ne N(1) by (simp add: nrows_rows_at length_positions)
  have n0: "nrows (rows_at df ?p0) = ?m"
    using ne by (simp add: nrows_rows_at length_positions)
  have inb: "list_all (\<lambda>i. i < length ?p0) ?ch"
    using drawn(2) by (simp add: length_positions)
  have run: "epochs_seizure_based L df = Inr (rows_at df ?idx)"
    using col n1 n0 enough inb
    by (simp add: epochs_seizure_based_def Let_def rows_at_rows_at concat_rows_at)
  have d0: "distinct (map (\<lambda>i. ?p0 ! i) ?ch)"
  proof -
    have "inj_on (\<lambda>i. ?p0 ! i) (set ?ch)"
    proof (rule inj_onI)
      fix i j
      assume "i \<in> set ?ch" "j \<in> set ?ch" "?p0 ! i = ?p0 ! j"
      moreover from \<open>i \<in> set ?ch\<close> \<open>j \<in> set ?ch\<close> inb
      have "i < length ?p0" "j < length ?p0"
        by (auto simp: list_all_iff)
      ultimately show "i = j"
        using distinct_positions [of "\<lambda>c. c = Num 0" seizure]
        by (simp add: nth_eq_iff_index_eq)
    qed
    with drawn(3) show ?thesis
      by (simp add: distinct_map)
  qed
  have sub0: "set (map (\<lambda>i. ?p0 ! i) ?ch) \<subseteq> set ?p0"
    using inb by (auto simp: list_all_iff)
  have disj: "set ?p1 \<inter> set ?p0 = {}"
    by (auto dest!: positions_bound)
  have dist: "distinct ?idx"
    using d0 sub0 disj distinct_positions [of "\<lambda>c. c = Num 1" seizure] by auto
  have zeros: "map (\<lambda>i. seizure ! i) (map (\<lambda>i. ?p0 ! i) ?ch) = replicate N (Num 0)"
  proof -
    have "\<forall>x \<in> set (map (\<lambda>i. ?p0 ! i) ?ch). seizure ! x = Num 0"
      using sub0 by (auto dest!: positions_bound)
    then have "map (\<lambda>i. seizure ! i) (map (\<lambda>i. ?p0 ! i) ?ch)
                 = replicate (length (map (\<lambda>i. ?p0 ! i) ?ch)) (Num 0)"
      by (rule map_const_replicate)
    with drawn(1) show ?thesis
      by simp
  qed
  have ones: "map (\<lambda>i. seizure ! i) ?p1 = replicate N (Num 1)"
    using filter_eq_replicate [of "Num 1" seizure] N(1) by (simp add: map_nth_positions)
  have lab: "getcol (rows_at df ?idx) ''seizure'' = Inr (replicate N (Num 1) @ replicate N (Num 0))"
    using getcol_rows_at [OF col, of ?idx] ones zeros by simp
  have c1: "length (filter (\<lambda>c. c = Num 1) (replicate N (Num 1) @ replicate N (Num 0))) = N"
    by simp
  have c0: "length (filter (\<lambda>c. c = Num 0) (replicate N (Num 1) @ replicate N (Num 0))) = N"
    by simp
  from run dist lab c1 c0 show ?thesis
    by blast
qed

theorem balancer_equal_counts_witness:
  "getcol balanced_example ''seizure'' = Inr [Num 0, Num 1, Num 0, Num 0]
   \<and> epochs_seizure_based (reads_as raw_no_events) balanced_example
       = Inr [(''epoch'', [Num 1, Num 3]), (''Fp1'', [Arr [Some 2], Arr [Some 4]]),
              (''seizure'', [Num 1, Num 0])]"
proof -
  let ?sc = "[Num 0, Num 1, Num 0, Num 0]"
  let ?L = "reads_as raw_no_events"
  have col: "getcol balanced_example ''seizure'' = Inr ?sc"
    by (simp add: balanced_example_def getcol_def)
  have n: "length (filter (\<lambda>c. c = Num 1) ?sc) = 1" "0 < (1::nat)"
    by simp_all
  have e: "1 \<le> length (filter (\<lambda>c. c = Num 0) ?sc)"
    by simp
  have d1: "length (choice ?L (length (filter (\<lambda>c. c = Num 0) ?sc)) 1) = 1"
    by (simp add: reads_as_def positions_def)
  have d2: "list_all (\<lambda>i. i < length (filter (\<lambda>c. c = Num 0) ?sc))
              (choice ?L (length (filter (\<lambda>c. c = Num 0) ?sc)) 1)"
    by (simp add: reads_as_def positions_def)
  have d3: "distinct (choice ?L (length (filter (\<lambda>c. c = Num 0) ?sc)) 1)"
    by (simp add: reads_as_def positions_def)
  have idx: "positions (\<lambda>c. c = Num 1) ?sc
               @ map (\<lambda>i. positions (\<lambda>c. c = Num 0) ?sc ! i)
                   (choice ?L (length (filter (\<lambda>c. c = Num 0) ?sc)) 1) = [1, 3]"
    by (simp add: reads_as_def positions_def)
  have r: "rows_at balanced_example [1, 3]
             = [(''epoch'', [Num 1, Num 3]), (''Fp1'', [Arr [Some 2], Arr [Some 4]]),
                (''seizure'', [Num 1, Num 0])]"
    by (simp add: balanced_example_def rows_at_def)
  from balancer_equal_counts [OF col n e d1 d2 d3]
  obtain out where "epochs_seizure_based ?L balanced_example = Inr out"
    and "out = rows_at balanced_example
                 (positions (\<lambda>c. c = Num 1) ?sc
                  @ map (\<lambda>i. positions (\<lambda>c. c = Num 0) ?sc ! i)
                      (choice ?L (length (filter (\<lambda>c. c = Num 0) ?sc)) 1))"
    by blast
  with idx r col show ?thesis
    by simp
qed

text \<open>With fewer rows of label 0 than of label 1 the draw raises.\<close>

lemma balancer_too_few_rows:
  assumes "getcol df ''seizure'' = Inr seizure"
    and "length (filter (\<lambda>c. c = Num 0) seizure) < length (filter (\<lambda>c. c = Num 1) seizure)"
  shows "epochs_seizure_based L df = Inl ValueError"
proof -
  have ne: "df \<noteq> []"
    using assms(1) by (rule getcol_nonempty)
  then have "nrows (rows_at df (positions (\<lambda>c. c = Num 1) seizure))
               = length (filter (\<lambda>c. c = Num 1) seizure)"
    and "nrows (rows_at df (positions (\<lambda>c. c = Num 0) seizure))
               = length (filter (\<lambda>c. c = Num 0) seizure)"
    by (simp_all add: nrows_rows_at length_positions)
  with assms show ?thesis
    by (simp add: epochs_seizure_based_def Let_def)
qed

section \<open>Properties of the labeling\<close>

lemma num_cells_Some: "num_cells key = Some ts \<Longrightarrow> key = map Num ts"
  by (induction key arbitrary: ts rule: num_cells.induct) auto

lemma map_of_rename:
  assumes fk: "\<forall>n. (f n = k) = (n = k)"
  shows "map_of (map (\<lambda>(n, c). (f n, c)) xs) k = map_of xs k"
proof (induction xs)
  case Nil
  show ?case by simp
next
  case (Cons a xs)
  obtain n c where a: "a = (n, c)"
    by (cases a)
  show ?case
  proof (cases "n = k")
    case True
    with fk have "f n = k" by blast
    with True a show ?thesis by simp
  next
    case False
    with fk have "f n \<noteq> k" by blast
    with False a Cons.IH show ?thesis by simp
  qed
qed

lemma map_of_rename_absent:
  "\<forall>n \<in> set (map fst xs). f n \<noteq> k \<Longrightarrow> map_of (map (\<lambda>(n, c). (f n, c)) xs) k = None"
  by (induction xs) auto

lemma getcol_setcol_same: "getcol (setcol df m c) m = Inr c"
proof (cases "m \<in> set (columns df)")
  case True
  then have "map_of (map (\<lambda>(n, old). if n = m then (n, c) else (n, old)) df) m = Some c"
    by (induction df) (auto simp: columns_def)
  with True show ?thesis by (simp add: getcol_def setcol_def)
next
  case False
  then have "map_of df m = None"
    by (simp add: columns_def map_of_eq_None_iff)
  with False show ?thesis
    by (simp add: getcol_def setcol_def map_add_def)
qed

lemma getcol_setcol_other: "n \<noteq> m \<Longrightarrow> getcol (setcol df m c) n = getcol df n"
proof -
  assume nm: "n \<noteq> m"
  have "map_of (map (\<lambda>(k, old). if k = m then (k, c) else (k, old)) df) n = map_of df n"
    using nm by (induction df) auto
  moreover have "map_of (df @ [(m, c)]) n = map_of df n"
    using nm by (simp add: map_add_def split: option.splits)
  ultimately show ?thesis
    by (simp add: getcol_def setcol_def)
qed

lemma getcol_dropcols:
  "dropcols df names = Inr out \<Longrightarrow> n \<notin> set names \<Longrightarrow> getcol out n = getcol df n"
proof -
  assume d: "dropcols df names = Inr out" and n: "n \<notin> set names"
  have "map_of (filter (\<lambda>(k, c). k \<notin> set names) df) n = map_of df n"
    using n by (induction df) auto
  moreover from d have "out = filter (\<lambda>(k, c). k \<notin> set names) df"
    by (simp add: dropcols_def split: if_splits)
  ultimately show ?thesis
    by (simp add: getcol_def)
qed

lemma wf_frame_getcol: "wf_frame df \<Longrightarrow> getcol df n = Inr c \<Longrightarrow> length c = nrows df"
proof -
  assume w: "wf_frame df" and g: "getcol df n = Inr c"
  from g have "map_of df n = Some c"
    by (simp add: getcol_def split: option.splits)
  then have "(n, c) \<in> set df"
    by (rule map_of_SomeD)
  with w show ?thesis
    by (auto simp: wf_frame_def list_all_iff)
qed

lemma zip4_maps:
  "zip (replicate (length ts) z) (zip (map f ts) (zip (map g ts) (map h ts)))
     = map (\<lambda>t. (z, f t, g t, h t)) ts"
  by (induction ts) auto

lemma asof_backward_Some:
  assumes "sorted (map sz_onset right)" "asof_backward right t = Some iv"
  shows "iv \<in> set right \<and> sz_onset iv \<le> t
         \<and> (\<forall>iv' \<in> set right. sz_onset iv' \<le> t \<longrightarrow> sz_onset iv' \<le> sz_onset iv)"
proof -
  let ?f = "filter (\<lambda>iv. sz_onset iv \<le> t) right"
  from assms(2) have ne: "?f \<noteq> []" and iv: "iv = last ?f"
    by (auto simp: asof_backward_def split: list.splits)
  then have mem: "iv \<in> set ?f"
    using last_in_set by blast
  have srt: "sorted (map sz_onset ?f)"
    using assms(1) by (rule sorted_filter)
  have "\<forall>iv' \<in> set ?f. sz_onset iv' \<le> sz_onset (last ?f)"
  proof
    fix iv' assume "iv' \<in> set ?f"
    then obtain i where i: "i < length ?f" "?f ! i = iv'"
      by (metis in_set_conv_nth)
    with srt ne have "map sz_onset ?f ! i \<le> map sz_onset ?f ! (length ?f - 1)"
      by (intro sorted_nth_mono) auto
    with i ne show "sz_onset iv' \<le> sz_onset (last ?f)"
      by (simp add: last_conv_nth)
  qed
  with mem iv show ?thesis by auto
qed

lemma asof_backward_None: "asof_backward right t = None \<longleftrightarrow> (\<forall>iv \<in> set right. t < sz_onset iv)"
proof -
  have "asof_backward right t = None \<longleftrightarrow> filter (\<lambda>iv. sz_onset iv \<le> t) right = []"
    by (simp add: asof_backward_def split: list.splits)
  also have "\<dots> \<longleftrightarrow> (\<forall>iv \<in> set right. t < sz_onset iv)"
    by (simp add: filter_empty_conv not_le)
  finally show ?thesis .
qed


lemma merge_asof_success:
  assumes "merge_asof left right = Inr df"
  shows "\<exists>ts. getcol left ''count'' = Inr (map Num ts) \<and> right \<noteq> [] \<and> sorted ts
           \<and> sorted (map sz_onset right)
           \<and> df = map (\<lambda>(n, c). (suffix_clash [''onset'', ''duration'', ''end''] ''_x'' n, c)) left
                 @ [(suffix_clash (columns left) ''_y'' ''onset'',
                     map (right_cell sz_onset) (map (asof_backward right) ts)),
                    (suffix_clash (columns left) ''_y'' ''duration'',
                     map (right_cell sz_duration) (map (asof_backward right) ts)),
                    (suffix_clash (columns left) ''_y'' ''end'',
                     map (right_cell sz_end) (map (asof_backward right) ts))]"
proof -
  from assms obtain key where key: "getcol left ''count'' = Inr key"
    by (auto simp: merge_asof_def split: sum.splits)
  with assms obtain ts where ts: "num_cells key = Some ts"
    by (auto simp: merge_asof_def split: option.splits if_splits)
  then have "key = map Num ts"
    by (rule num_cells_Some)
  with assms key ts show ?thesis
    by (auto simp: merge_asof_def Let_def split: if_splits)
qed


lemma rename_count: "\<forall>n. (suffix_clash [''onset'', ''duration'', ''end''] ''_x'' n = ''count'') = (n = ''count'')"
  by (auto simp: suffix_clash_def)

lemma rename_not:
  "k \<in> {''onset'', ''end''} \<Longrightarrow> k \<in> set (columns left) \<Longrightarrow>
   getcol (map (\<lambda>(n, c). (suffix_clash [''onset'', ''duration'', ''end''] ''_x'' n, c)) left
           @ [(suffix_clash (columns left) ''_y'' ''onset'', a),
              (suffix_clash (columns left) ''_y'' ''duration'', b),
              (suffix_clash (columns left) ''_y'' ''end'', c)]) k = Inl KeyError"
proof -
  assume k: "k \<in> {''onset'', ''end''}" and inl: "k \<in> set (columns left)"
  let ?f = "suffix_clash [''onset'', ''duration'', ''end''] ''_x''"
  have "\<forall>n \<in> set (map fst left). ?f n \<noteq> k"
    using k by (auto simp: suffix_clash_def)
  then have l: "map_of (map (\<lambda>(n, c). (?f n, c)) left) k = None"
    by (rule map_of_rename_absent)
  have r: "map_of [(suffix_clash (columns left) ''_y'' ''onset'', a),
              (suffix_clash (columns left) ''_y'' ''duration'', b),
              (suffix_clash (columns left) ''_y'' ''end'', c)] k = None"
    using k inl by (auto simp: suffix_clash_def)
  from l r show ?thesis
    by (simp add: getcol_def map_add_def)
qed

lemma getcol_merged_right:
  assumes "''onset'' \<notin> set (columns left)" "''end'' \<notin> set (columns left)"
  shows "getcol (map (\<lambda>(n, c). (suffix_clash [''onset'', ''duration'', ''end''] ''_x'' n, c)) left
           @ [(suffix_clash (columns left) ''_y'' ''onset'', a),
              (suffix_clash (columns left) ''_y'' ''duration'', b),
              (suffix_clash (columns left) ''_y'' ''end'', c)]) ''onset'' = Inr a"
    and "getcol (map (\<lambda>(n, c). (suffix_clash [''onset'', ''duration'', ''end''] ''_x'' n, c)) left
           @ [(suffix_clash (columns left) ''_y'' ''onset'', a),
              (suffix_clash (columns left) ''_y'' ''duration'', b),
              (suffix_clash (columns left) ''_y'' ''end'', c)]) ''end'' = Inr c"
proof -
  let ?f = "suffix_clash [''onset'', ''duration'', ''end''] ''_x''"
  have "\<forall>n \<in> set (map fst left). ?f n \<noteq> ''onset''"
    by (auto simp: suffix_clash_def)
  then have l1: "map_of (map (\<lambda>(n, c). (?f n, c)) left) ''onset'' = None"
    by (rule map_of_rename_absent)
  have "\<forall>n \<in> set (map fst left). ?f n \<noteq> ''end''"
    by (auto simp: suffix_clash_def)
  then have l2: "map_of (map (\<lambda>(n, c). (?f n, c)) left) ''end'' = None"
    by (rule map_of_rename_absent)
  show "getcol (map (\<lambda>(n, c). (?f n, c)) left
           @ [(suffix_clash (columns left) ''_y'' ''onset'', a),
              (suffix_clash (columns left) ''_y'' ''duration'', b),
              (suffix_clash (columns left) ''_y'' ''end'', c)]) ''onset'' = Inr a"
    using l1 assms by (simp add: getcol_def map_add_def suffix_clash_def)
  show "getcol (map (\<lambda>(n, c). (?f n, c)) left
           @ [(suffix_clash (columns left) ''_y'' ''onset'', a),
              (suffix_clash (columns left) ''_y'' ''duration'', b),
              (suffix_clash (columns left) ''_y'' ''end'', c)]) ''end'' = Inr c"
    using l2 assms by (simp add: getcol_def map_add_def suffix_clash_def)
qed

lemma getcol_merged_count:
  "getcol left ''count'' = Inr key \<Longrightarrow>
   getcol (map (\<lambda>(n, c). (suffix_clash [''onset'', ''duration'', ''end''] ''_x'' n, c)) left
           @ rest) ''count'' = Inr key"
proof -
  assume "getcol left ''count'' = Inr key"
  then have "map_of left ''count'' = Some key"
    by (simp add: getcol_def split: option.splits)
  then have "map_of (map (\<lambda>(n, c). (suffix_clash [''onset'', ''duration'', ''end''] ''_x'' n, c)) left) ''count'' = Some key"
    using map_of_rename [OF rename_count, of left] by simp
  then show ?thesis
    by (simp add: getcol_def map_add_def)
qed

lemma nrows_merged:
  "left \<noteq> [] \<Longrightarrow> nrows (map (\<lambda>(n, c). (f n, c)) left @ rest) = nrows left"
  by (cases left) (auto simp: nrows_def)

lemma label_cell:
  "(if cell_le (right_cell sz_onset (asof_backward ivs t)) (Num t)
       \<and> cell_le (Num t) (right_cell sz_end (asof_backward ivs t)) then Num 1 else Num 0)
   = (case asof_backward ivs t of
        None \<Rightarrow> Num 0
      | Some iv \<Rightarrow> if sz_onset iv \<le> t \<and> t \<le> sz_end iv then Num 1 else Num 0)"
  by (cases "asof_backward ivs t") (simp_all add: right_cell_def)


lemma labeling_labels:
  assumes ok: "labeling df ivs = Inr out" and wf: "wf_frame df"
  shows "\<exists>ts. getcol df ''count'' = Inr (map Num ts) \<and> ivs \<noteq> [] \<and> sorted ts
           \<and> sorted (map sz_onset ivs)
           \<and> getcol out ''seizure''
               = Inr (map (\<lambda>t. case asof_backward ivs t of
                                   None \<Rightarrow> Num 0
                                 | Some iv \<Rightarrow> if sz_onset iv \<le> t \<and> t \<le> sz_end iv
                                             then Num 1 else Num 0) ts)"
proof -
  let ?f = "suffix_clash [''onset'', ''duration'', ''end''] ''_x''"
  from ok obtain M where M: "merge_asof df ivs = Inr M"
    by (auto simp: labeling_def split: sum.splits)
  from merge_asof_success [OF M] obtain ts where
    key: "getcol df ''count'' = Inr (map Num ts)" and ne: "ivs \<noteq> []" and sts: "sorted ts"
    and siv: "sorted (map sz_onset ivs)"
    and Meq: "M = map (\<lambda>(n, c). (?f n, c)) df
                 @ [(suffix_clash (columns df) ''_y'' ''onset'',
                     map (right_cell sz_onset) (map (asof_backward ivs) ts)),
                    (suffix_clash (columns df) ''_y'' ''duration'',
                     map (right_cell sz_duration) (map (asof_backward ivs) ts)),
                    (suffix_clash (columns df) ''_y'' ''end'',
                     map (right_cell sz_end) (map (asof_backward ivs) ts))]"
    by blast
  let ?zeros = "replicate (nrows M) (Num 0)"
  let ?df0 = "setcol M ''seizure'' ?zeros"
  have dfne: "df \<noteq> []"
    using key by (rule getcol_nonempty)
  have nM: "nrows M = length ts"
    using wf_frame_getcol [OF wf key] dfne by (simp add: Meq nrows_merged)
  have cnt: "getcol ?df0 ''count'' = Inr (map Num ts)"
    using getcol_merged_count [OF key] by (simp add: getcol_setcol_other Meq)
  from ok M cnt obtain ons where ons: "getcol ?df0 ''onset'' = Inr ons"
    by (auto simp: labeling_def Let_def split: sum.splits)
  from ok M cnt ons obtain ends where ends: "getcol ?df0 ''end'' = Inr ends"
    by (auto simp: labeling_def Let_def split: sum.splits)
  have no_on: "''onset'' \<notin> set (columns df)"
  proof
    assume "''onset'' \<in> set (columns df)"
    then have "getcol M ''onset'' = Inl KeyError"
      unfolding Meq by (intro rename_not) simp_all
    with ons show False
      by (simp add: getcol_setcol_other)
  qed
  have no_en: "''end'' \<notin> set (columns df)"
  proof
    assume "''end'' \<in> set (columns df)"
    then have "getcol M ''end'' = Inl KeyError"
      unfolding Meq by (intro rename_not) simp_all
    with ends show False
      by (simp add: getcol_setcol_other)
  qed
  have ons_eq: "ons = map (right_cell sz_onset) (map (asof_backward ivs) ts)"
    using ons getcol_merged_right(1) [OF no_on no_en] by (simp add: getcol_setcol_other Meq)
  have ends_eq: "ends = map (right_cell sz_end) (map (asof_backward ivs) ts)"
    using ends getcol_merged_right(2) [OF no_on no_en] by (simp add: getcol_setcol_other Meq)
  have old: "getcol ?df0 ''seizure'' = Inr ?zeros"
    by (rule getcol_setcol_same)
  let ?labels = "map (\<lambda>(s, c, on, en). if cell_le on c \<and> cell_le c en then Num 1 else s)
                   (zip ?zeros (zip (map Num ts) (zip ons ends)))"
  from ok M cnt ons ends old
  have drop: "dropcols (setcol ?df0 ''seizure'' ?labels) [''count'', ''onset'', ''end''] = Inr out"
    by (simp add: labeling_def Let_def)
  have "getcol out ''seizure'' = getcol (setcol ?df0 ''seizure'' ?labels) ''seizure''"
    using drop by (rule getcol_dropcols) simp
  then have lab: "getcol out ''seizure'' = Inr ?labels"
    by (simp add: getcol_setcol_same)
  have z: "zip (replicate (length ts) (Num 0))
             (zip (map Num ts)
                (zip (map (\<lambda>t. right_cell sz_onset (asof_backward ivs t)) ts)
                     (map (\<lambda>t. right_cell sz_end (asof_backward ivs t)) ts)))
           = map (\<lambda>t. (Num 0, Num t, right_cell sz_onset (asof_backward ivs t),
                        right_cell sz_end (asof_backward ivs t))) ts"
    by (rule zip4_maps)
  have "?labels = map (\<lambda>t. if cell_le (right_cell sz_onset (asof_backward ivs t)) (Num t)
                              \<and> cell_le (Num t) (right_cell sz_end (asof_backward ivs t))
                            then Num 1 else Num 0) ts"
    using z by (simp add: nM ons_eq ends_eq comp_def)
  also have "\<dots> = map (\<lambda>t. case asof_backward ivs t of
                                   None \<Rightarrow> Num 0
                                 | Some iv \<Rightarrow> if sz_onset iv \<le> t \<and> t \<le> sz_end iv
                                             then Num 1 else Num 0) ts"
    by (simp only: label_cell)
  finally have "?labels = map (\<lambda>t. case asof_backward ivs t of
                                   None \<Rightarrow> Num 0
                                 | Some iv \<Rightarrow> if sz_onset iv \<le> t \<and> t \<le> sz_end iv
                                             then Num 1 else Num 0) ts" .
  with lab key ne sts siv show ?thesis
    by auto
qed


text \<open>
  Claim C5. When \<^verbatim>\<open>labeling\<close> returns, the label of every row is computed from
  the row's time \<open>t\<close> (its cell in the column \<^verbatim>\<open>count\<close>) alone: it is 0 when no
  interval is matched, and otherwise 1 exactly when
  \<open>onset \<le> t \<le> end\<close> for the matched interval, both bounds included. The matched
  interval is one of the intervals, its onset is not after \<open>t\<close> and no interval with
  an onset up to \<open>t\<close> has a later onset; no interval is matched exactly when every
  onset is after \<open>t\<close>.
\<close>

theorem labeling_inclusive_bounds:
  assumes "labeling df ivs = Inr out" and "wf_frame df"
  shows "\<exists>ts. getcol df ''count'' = Inr (map Num ts)
           \<and> getcol out ''seizure''
               = Inr (map (\<lambda>t. case asof_backward ivs t of
                                   None \<Rightarrow> Num 0
                                 | Some iv \<Rightarrow> if sz_onset iv \<le> t \<and> t \<le> sz_end iv
                                             then Num 1 else Num 0) ts)
           \<and> (\<forall>t iv. asof_backward ivs t = Some iv \<longrightarrow>
                  iv \<in> set ivs \<and> sz_onset iv \<le> t
                  \<and> (\<forall>iv' \<in> set ivs. sz_onset iv' \<le> t \<longrightarrow> sz_onset iv' \<le> sz_onset iv))
           \<and> (\<forall>t. asof_backward ivs t = None \<longleftrightarrow> (\<forall>iv \<in> set ivs. t < sz_onset iv))"
proof -
  from labeling_labels [OF assms] obtain ts where
    key: "getcol df ''count'' = Inr (map Num ts)" and siv: "sorted (map sz_onset ivs)"
    and lab: "getcol out ''seizure''
               = Inr (map (\<lambda>t. case asof_backward ivs t of
                                   None \<Rightarrow> Num 0
                                 | Some iv \<Rightarrow> if sz_onset iv \<le> t \<and> t \<le> sz_end iv
                                             then Num 1 else Num 0) ts)"
    by blast
  have some: "\<forall>t iv. asof_backward ivs t = Some iv \<longrightarrow>
                  iv \<in> set ivs \<and> sz_onset iv \<le> t
                  \<and> (\<forall>iv' \<in> set ivs. sz_onset iv' \<le> t \<longrightarrow> sz_onset iv' \<le> sz_onset iv)"
    using asof_backward_Some [OF siv] by blast
  have none: "\<forall>t. asof_backward ivs t = None \<longleftrightarrow> (\<forall>iv \<in> set ivs. t < sz_onset iv)"
    using asof_backward_None by blast
  from key lab some none show ?thesis
    by blast
qed

theorem labeling_inclusive_bounds_witness:
  "wf_frame samples_example
   \<and> labeling samples_example (snd (seizure_annotations raw_one_seizure))
       = Inr [(''time'', [Num 0, Num 1, Num 2, Num 3]),
              (''epoch'', [Num 1, Num 1, Num 2, Num 2]),
              (''Fp1'', [Num 4, Num 5, Num 6, Num 7]),
              (''duration'', [NaN, Num 10, Num 10, Num 10]),
              (''seizure'', [Num 0, Num 1, Num 1, Num 0])]
   \<and> asof_backward (snd (seizure_annotations raw_one_seizure)) (23 / 2) = None
   \<and> asof_backward (snd (seizure_annotations raw_one_seizure)) 22
       = Some \<lparr>sz_onset = 12, sz_duration = 10, sz_end = 22\<rparr>
   \<and> list_all (\<lambda>iv. 23 / 2 < sz_onset iv) (snd (seizure_annotations raw_one_seizure))"
proof -
  let ?ivs = "snd (seizure_annotations raw_one_seizure)"
  let ?out = "[(''time'', [Num 0, Num 1, Num 2, Num 3]),
              (''epoch'', [Num 1, Num 1, Num 2, Num 2]),
              (''Fp1'', [Num 4, Num 5, Num 6, Num 7]),
              (''duration'', [NaN, Num 10, Num 10, Num 10]),
              (''seizure'', [Num 0, Num 1, Num 1, Num 0])]"
  have ivs: "?ivs = [\<lparr>sz_onset = 12, sz_duration = 10, sz_end = 22\<rparr>]"
    by (simp add: seizure_annotations_def raw_one_seizure_def seizure_marker_def)
  have wf: "wf_frame samples_example"
    by (simp add: wf_frame_def samples_example_def nrows_def)
  have run: "labeling samples_example ?ivs = Inr ?out"
    unfolding ivs
    by (simp add: labeling_def merge_asof_def getcol_def setcol_def dropcols_def nrows_def
        columns_def suffix_clash_def asof_backward_def right_cell_def samples_example_def)
  have m: "asof_backward ?ivs 22 = Some \<lparr>sz_onset = 12, sz_duration = 10, sz_end = 22\<rparr>"
    unfolding ivs by (simp add: asof_backward_def)
  from labeling_inclusive_bounds [OF run wf]
  have "asof_backward ?ivs (23 / 2) = None \<longleftrightarrow> (\<forall>iv \<in> set ?ivs. 23 / 2 < sz_onset iv)"
    by blast
  moreover have "\<forall>iv \<in> set ?ivs. 23 / 2 < sz_onset iv"
    unfolding ivs by simp
  ultimately have "asof_backward ?ivs (23 / 2) = None"
    and "list_all (\<lambda>iv. 23 / 2 < sz_onset iv) ?ivs"
    by (simp_all add: list_all_iff)
  with wf run m show ?thesis
    by blast
qed

section \<open>Properties of the reshaping\<close>

lemma traverse_Inr:
  "traverse f xs = Inr ys \<Longrightarrow> list_all2 (\<lambda>x y. f x = Inr y) xs ys"
proof (induction xs arbitrary: ys)
  case Nil
  then show ?case by simp
next
  case (Cons x xs)
  from Cons.prems obtain y where y: "f x = Inr y"
    by (cases "f x") auto
  with Cons.prems obtain zs where zs: "traverse f xs = Inr zs"
    by (cases "traverse f xs") auto
  with y Cons.prems have "ys = y # zs"
    by simp
  with y Cons.IH [OF zs] show ?case
    by simp
qed

lemma traverse_map:
  assumes "traverse f xs = Inr ys" and "\<forall>x \<in> set xs. \<forall>y. f x = Inr y \<longrightarrow> y = h x"
  shows "ys = map h xs"
proof -
  from traverse_Inr [OF assms(1)] have "list_all2 (\<lambda>x y. f x = Inr y) xs ys" .
  then show ?thesis
    using assms(2)
  proof (induction rule: list_all2_induct)
    case Nil
    then show ?case by simp
  next
    case (Cons x xs y ys)
    then show ?case by simp
  qed
qed

lemma count_num_values: "count_list (num_values x) r = count_list x (Num r)"
  by (induction x rule: num_values.induct) auto

lemma num_values_binary:
  "list_all (\<lambda>c. c = Num 0 \<or> c = Num 1) x \<Longrightarrow> set (num_values x) \<subseteq> {0, 1}"
  by (induction x rule: num_values.induct) auto

lemma binary_mode:
  assumes bin: "list_all (\<lambda>c. c = Num 0 \<or> c = Num 1) x"
    and v: "iat0 (series_mode x) = Inr v"
  shows "v = (if count_list x (Num 0) < count_list x (Num 1) then Num 1 else Num 0)"
proof -
  let ?vs = "num_values x"
  let ?P = "\<lambda>v. list_all (\<lambda>w. count_list ?vs w \<le> count_list ?vs v) ?vs"
  let ?modes = "filter ?P (remdups ?vs)"
  from v obtain v' rest where s: "sort ?modes = v' # rest" and vv: "v = Num v'"
    by (auto simp: iat0_def series_mode_def Let_def split: list.splits)
  have "v' \<in> set (sort ?modes)"
    using s by simp
  then have mem: "v' \<in> set ?vs" and Pv: "?P v'"
    by auto
  have "sorted (sort ?modes)"
    by simp
  with s have least: "\<forall>w \<in> set ?modes. v' \<le> w"
    by (metis list.set_intros(2) order_refl set_ConsD set_sort sorted_simps(2))
  have sub: "set ?vs \<subseteq> {0, 1}"
    using bin by (rule num_values_binary)
  have c0: "count_list ?vs 0 = count_list x (Num 0)" and c1: "count_list ?vs 1 = count_list x (Num 1)"
    by (rule count_num_values)+
  from mem sub have "v' = 0 \<or> v' = 1"
    by auto
  then show ?thesis
  proof
    assume z: "v' = 0"
    have "count_list ?vs 1 \<le> count_list ?vs 0"
    proof (cases "1 \<in> set ?vs")
      case True
      with Pv z show ?thesis by (auto simp: list_all_iff)
    next
      case False
      then have "count_list ?vs 1 = 0"
        by (simp add: count_list_0_iff)
      then show ?thesis by simp
    qed
    with z vv c0 c1 show ?thesis
      by simp
  next
    assume o: "v' = 1"
    have "count_list ?vs 0 < count_list ?vs 1"
    proof (rule ccontr)
      assume "\<not> count_list ?vs 0 < count_list ?vs 1"
      then have le: "count_list ?vs 1 \<le> count_list ?vs 0"
        by simp
      from mem o have "count_list ?vs 1 \<noteq> 0"
        by (simp add: count_list_0_iff)
      with le have "count_list ?vs 0 \<noteq> 0"
        by simp
      then have in0: "0 \<in> set ?vs"
        by (simp add: count_list_0_iff)
      have "?P 0"
        unfolding list_all_iff
      proof
        fix w assume "w \<in> set ?vs"
        with sub have "w = 0 \<or> w = 1" by auto
        with le show "count_list ?vs w \<le> count_list ?vs 0" by auto
      qed
      with in0 have "0 \<in> set ?modes"
        by simp
      with least have "v' \<le> 0"
        by blast
      with o show False
        by simp
    qed
    with o vv c0 c1 show ?thesis
      by simp
  qed
qed

lemma group_of_subset: "set (group_of epoch col k) \<subseteq> set col"
  by (auto simp: group_of_def dest: set_zip_rightD)

lemma reshape_df_success:
  assumes "reshape_df g L df = Inr out"
  shows "\<exists>keys labels. seizure_label df = Inr (keys, labels)
           \<and> getcol out ''epoch'' = Inr (map Num keys)
           \<and> getcol out ''seizure'' = Inr labels"
proof -
  from assms obtain agg where agg: "agg_channels g L df eeg_channels = Inr agg"
    by (auto simp: reshape_df_def split: sum.splits)
  with assms obtain keys labels where sl: "seizure_label df = Inr (keys, labels)"
    by (auto simp: reshape_df_def split: sum.splits)
  with assms agg have out: "out = (''epoch'', map Num keys) # setcol agg ''seizure'' labels"
    by (simp add: reshape_df_def)
  have e: "getcol out ''epoch'' = Inr (map Num keys)"
    by (simp add: out getcol_def)
  have "getcol out ''seizure'' = getcol (setcol agg ''seizure'' labels) ''seizure''"
    by (simp add: out getcol_def)
  then have "getcol out ''seizure'' = Inr labels"
    by (simp add: getcol_setcol_same)
  with sl e show ?thesis
    by blast
qed


lemma reshape_df_binary_labels:
  assumes "reshape_df g L df = Inr out"
    and "getcol df ''epoch'' = Inr epoch"
    and "getcol df ''seizure'' = Inr seizure"
    and "list_all (\<lambda>c. c = Num 0 \<or> c = Num 1) seizure"
  shows "getcol out ''epoch'' = Inr (map Num (group_keys epoch))
         \<and> getcol out ''seizure''
             = Inr (map (\<lambda>k. if count_list (group_of epoch seizure k) (Num 0)
                                  < count_list (group_of epoch seizure k) (Num 1)
                               then Num 1 else Num 0) (group_keys epoch))"
proof -
  let ?h = "\<lambda>x. if count_list x (Num 0) < count_list x (Num 1) then Num 1 else Num 0"
  let ?groups = "map (group_of epoch seizure) (group_keys epoch)"
  from reshape_df_success [OF assms(1)] obtain keys labels where
    sl: "seizure_label df = Inr (keys, labels)"
    and e: "getcol out ''epoch'' = Inr (map Num keys)"
    and l: "getcol out ''seizure'' = Inr labels"
    by blast
  from sl assms(2,3) have keys: "keys = group_keys epoch"
    and tr: "traverse (\<lambda>x. iat0 (series_mode x)) ?groups = Inr labels"
    by (auto simp: seizure_label_def split: sum.splits)
  have "\<forall>x \<in> set ?groups. \<forall>y. iat0 (series_mode x) = Inr y \<longrightarrow> y = ?h x"
  proof (intro ballI allI impI)
    fix x y
    assume x: "x \<in> set ?groups" and y: "iat0 (series_mode x) = Inr y"
    from x obtain k where "x = group_of epoch seizure k"
      by auto
    then have "set x \<subseteq> set seizure"
      by (simp add: group_of_subset)
    with assms(4) have "list_all (\<lambda>c. c = Num 0 \<or> c = Num 1) x"
      by (auto simp: list_all_iff)
    then show "y = ?h x"
      using y by (rule binary_mode)
  qed
  with tr have "labels = map ?h ?groups"
    by (rule traverse_map)
  then have "labels = map (\<lambda>k. ?h (group_of epoch seizure k)) (group_keys epoch)"
    by (simp add: comp_def)
  with e l keys show ?thesis
    by simp
qed

text \<open>
  Claim C2, as amended. When \<^verbatim>\<open>reshape_df\<close> returns for a table with labels 0 and
  1, the reshaped table has one row per epoch, in ascending order of the epoch, and the
  label of an epoch is 1 when more of its samples have the label 1 than the label 0,
  and 0 otherwise: it is the value that occurs most often among the samples of the
  epoch, and 0, the smaller value, when both occur equally often.
\<close>

theorem reshape_label_smallest_mode:
  assumes "reshape_df g L df = Inr out"
    and "getcol df ''epoch'' = Inr epoch"
    and "getcol df ''seizure'' = Inr seizure"
    and "list_all (\<lambda>c. c = Num 0 \<or> c = Num 1) seizure"
  shows "getcol out ''epoch'' = Inr (map Num (group_keys epoch))
         \<and> getcol out ''seizure''
             = Inr (map (\<lambda>k. if count_list (group_of epoch seizure k) (Num 0)
                                  < count_list (group_of epoch seizure k) (Num 1)
                               then Num 1 else Num 0) (group_keys epoch))"
  using assms by (rule reshape_df_binary_labels)

lemma flat_samples_cols:
  "getcol (flat_samples epoch seizure) ''epoch'' = Inr epoch"
  "getcol (flat_samples epoch seizure) ''seizure'' = Inr seizure"
  by (simp_all add: flat_samples_def getcol_def eeg_channels_def)

lemma agg_flat:
  "agg_channels (''np'' # notebook_globals) (reads_as raw_no_events)
     (flat_samples [Num 0, Num 0] [Num 1, Num 0]) eeg_channels
   = Inr (map (\<lambda>ch. (ch, [Arr [Some 0, Some 0]])) eeg_channels)"
  by (simp add: eeg_channels_def flat_samples_def getcol_def group_keys_def group_of_def
      float32_array_def lookup_def reads_as_def)

text \<open>
  The claim as it is written fails on a tie: an epoch whose samples have the labels 1, 0
  in this order gets the label 0, while the value that occurs first among the most
  frequent ones is 1. (The table is reshaped in a namespace in which \<^verbatim>\<open>np\<close> is
  bound.)
\<close>

theorem tie_first_occurring_counterexample:
  "group_of [Num 0, Num 0] [Num 1, Num 0] 0 = [Num 1, Num 0]
   \<and> spec_first_occurring_mode [Num 1, Num 0] = Some (Num 1)
   \<and> seizure_label (flat_samples [Num 0, Num 0] [Num 1, Num 0]) = Inr ([0], [Num 0])
   \<and> reshape_df (''np'' # notebook_globals) (reads_as raw_no_events)
        (flat_samples [Num 0, Num 0] [Num 1, Num 0])
      = Inr ((''epoch'', [Num 0]) # map (\<lambda>ch. (ch, [Arr [Some 0, Some 0]])) eeg_channels
             @ [(''seizure'', [Num 0])])"
proof -
  have g: "group_of [Num 0, Num 0] [Num 1, Num 0] 0 = [Num 1, Num 0]"
    by (simp add: group_of_def)
  have f: "spec_first_occurring_mode [Num 1, Num 0] = Some (Num 1)"
    by (simp add: spec_first_occurring_mode_def)
  have k: "group_keys [Num 0, Num 0] = [0]"
    by (simp add: group_keys_def)
  have m: "iat0 (series_mode [Num 1, Num 0]) = Inr (Num 0)"
    by (simp add: iat0_def series_mode_def)
  have s: "seizure_label (flat_samples [Num 0, Num 0] [Num 1, Num 0]) = Inr ([0], [Num 0])"
    by (simp add: seizure_label_def flat_samples_cols k g m)
  have n: "''seizure'' \<notin> set (columns (map (\<lambda>ch. (ch, [Arr [Some 0, Some 0]])) eeg_channels))"
    by (simp add: columns_def eeg_channels_def)
  have r: "reshape_df (''np'' # notebook_globals) (reads_as raw_no_events)
        (flat_samples [Num 0, Num 0] [Num 1, Num 0])
      = Inr ((''epoch'', [Num 0]) # map (\<lambda>ch. (ch, [Arr [Some 0, Some 0]])) eeg_channels
             @ [(''seizure'', [Num 0])])"
    using n by (simp add: reshape_df_def agg_flat s setcol_def)
  from g f s r show ?thesis
    by blast
qed


lemma agg_two_epochs:
  "agg_channels (''np'' # notebook_globals) (reads_as raw_no_events)
     (flat_samples [Num 0, Num 0, Num 1, Num 1, Num 1] [Num 1, Num 0, Num 1, Num 0, Num 1])
     eeg_channels
   = Inr (map (\<lambda>ch. (ch, [Arr [Some 0, Some 0], Arr [Some 0, Some 0, Some 0]])) eeg_channels)"
  by (simp add: eeg_channels_def flat_samples_def getcol_def group_keys_def group_of_def
      float32_array_def lookup_def reads_as_def)

theorem reshape_label_smallest_mode_witness:
  "getcol (flat_samples [Num 0, Num 0, Num 1, Num 1, Num 1] [Num 1, Num 0, Num 1, Num 0, Num 1])
     ''epoch'' = Inr [Num 0, Num 0, Num 1, Num 1, Num 1]
   \<and> getcol (flat_samples [Num 0, Num 0, Num 1, Num 1, Num 1] [Num 1, Num 0, Num 1, Num 0, Num 1])
     ''seizure'' = Inr [Num 1, Num 0, Num 1, Num 0, Num 1]
   \<and> list_all (\<lambda>c. c = Num 0 \<or> c = Num 1) [Num 1, Num 0, Num 1, Num 0, Num 1]
   \<and> (\<exists>out. reshape_df (''np'' # notebook_globals) (reads_as raw_no_events)
               (flat_samples [Num 0, Num 0, Num 1, Num 1, Num 1]
                  [Num 1, Num 0, Num 1, Num 0, Num 1]) = Inr out
            \<and> getcol out ''epoch'' = Inr [Num 0, Num 1]
            \<and> getcol out ''seizure'' = Inr [Num 0, Num 1])"
proof -
  let ?E = "[Num 0, Num 0, Num 1, Num 1, Num 1]"
  let ?S = "[Num 1, Num 0, Num 1, Num 0, Num 1]"
  let ?agg = "map (\<lambda>ch. (ch, [Arr [Some 0, Some 0], Arr [Some 0, Some 0, Some 0]])) eeg_channels"
  have e: "getcol (flat_samples ?E ?S) ''epoch'' = Inr ?E"
    and s: "getcol (flat_samples ?E ?S) ''seizure'' = Inr ?S"
    by (rule flat_samples_cols)+
  have b: "list_all (\<lambda>c. c = Num 0 \<or> c = Num 1) ?S"
    by simp
  have k: "group_keys ?E = [0, 1]"
    by (simp add: group_keys_def)
  have g0: "group_of ?E ?S 0 = [Num 1, Num 0]" and g1: "group_of ?E ?S 1 = [Num 1, Num 0, Num 1]"
    by (simp_all add: group_of_def)
  have m0: "iat0 (series_mode [Num 1, Num 0]) = Inr (Num 0)"
    and m1: "iat0 (series_mode [Num 1, Num 0, Num 1]) = Inr (Num 1)"
    by (simp_all add: iat0_def series_mode_def)
  have sl: "seizure_label (flat_samples ?E ?S) = Inr ([0, 1], [Num 0, Num 1])"
    by (simp add: seizure_label_def flat_samples_cols k g0 g1 m0 m1)
  have run: "reshape_df (''np'' # notebook_globals) (reads_as raw_no_events) (flat_samples ?E ?S)
               = Inr ((''epoch'', [Num 0, Num 1]) # setcol ?agg ''seizure'' [Num 0, Num 1])"
    by (simp add: reshape_df_def agg_two_epochs sl)
  from reshape_label_smallest_mode [OF run e s b]
  have "getcol ((''epoch'', [Num 0, Num 1]) # setcol ?agg ''seizure'' [Num 0, Num 1]) ''epoch''
          = Inr [Num 0, Num 1]"
    and "getcol ((''epoch'', [Num 0, Num 1]) # setcol ?agg ''seizure'' [Num 0, Num 1]) ''seizure''
          = Inr [Num 0, Num 1]"
    by (simp_all add: k g0 g1)
  with run e s b show ?thesis
    by blast
qed

section \<open>Properties of the normalizer and of the epoching engine\<close>

lemma np_unbound: "''np'' \<notin> set notebook_globals" "''df'' \<notin> set notebook_globals"
  by (simp_all add: notebook_globals_def)

lemma preprocess_np_unbound:
  assumes "''np'' \<notin> set g"
  shows "sfreq (fst (preprocess g L r)) = sfreq r"
    and "last_samp (fst (preprocess g L r)) = last_samp r"
    and "set (applied (fst (preprocess g L r)))
           \<subseteq> set (applied r) \<union> {SetChannelTypes, SetMontage ''standard_1020''}"
    and "ResampledTo256 \<notin> set (snd (preprocess g L r))"
    and "\<exists>e. snd (preprocess g L r) = [Printed e]"
  using assms
  by (auto simp: preprocess_def preprocess_try_def on_raw_def mne_call_def apply_op_def
      np_arange_def lookup_def say_def split: if_splits)

lemma np_arange_notch: "''np'' \<in> set g \<Longrightarrow> np_arange g 50 101 50 = Inr [50, 100]"
proof -
  assume "''np'' \<in> set g"
  moreover have "[0..<2] = [0, Suc 0]"
    by (simp add: numeral_2_eq_2)
  ultimately show ?thesis
    by (simp add: np_arange_def lookup_def)
qed

lemma preprocess_np_bound:
  assumes "''np'' \<in> set g" and "\<forall>op x. \<not> mne_raises L op x"
  shows "sfreq (fst (preprocess g L r)) = 256"
    and "applied (fst (preprocess g L r))
           = applied r @ [SetChannelTypes, SetMontage ''standard_1020'', NotchFilter [50, 100],
                          BandPass (1 / 10) 70, SetEEGReference ''average'']
             @ (if sfreq r \<noteq> 256 then [Resample 256] else [])"
    and "snd (preprocess g L r)
           = CleanedAndFiltered
             # (if sfreq r \<noteq> 256 then [SamplingFrequencyIs (py_int (sfreq r)), ResampledTo256]
                else [])"
  using assms
  by (simp_all add: preprocess_def preprocess_try_def on_raw_def mne_call_def apply_op_def
      np_arange_notch say_def)


lemma create_epochs_result:
  assumes "epochs_to_data_frame L r d ov = Inr df0"
  shows "create_epochs g L r d ov
           = Inr (case dropcols df0 [''condition''] of
                    Inl e \<Rightarrow> df0
                  | Inr df1 \<Rightarrow>
                      setcol df1 ''count'' (map (\<lambda>i. Num (of_nat i / 256)) [0..<nrows df1]))"
  using assms
  by (simp add: create_epochs_def create_epochs_try_def call_def global_df_epochs_columns_def
      lookup_def split: sum.splits)

lemma columns_setcol_list:
  "columns (setcol df n c) = (if n \<in> set (columns df) then columns df else columns df @ [n])"
proof -
  have "map fst (map (\<lambda>(k, old). if k = n then (k, c) else (k, old)) df) = map fst df"
    by (induction df) auto
  then show ?thesis
    by (simp add: columns_def setcol_def)
qed

lemma columns_setcol:
  "set (columns (setcol df n c)) = insert n (set (columns df))"
  by (auto simp: columns_setcol_list)

lemma columns_dropcols:
  "dropcols df names = Inr out \<Longrightarrow> set (columns out) = set (columns df) - set names"
  by (auto simp: dropcols_def columns_def image_iff split: if_splits)

lemma create_epochs_never_fills_pz:
  assumes "epochs_to_data_frame L r d ov = Inr df0" and "''Pz'' \<notin> set (columns df0)"
  shows "\<exists>out. create_epochs g L r d ov = Inr out \<and> ''Pz'' \<notin> set (columns out)"
proof (cases "dropcols df0 [''condition'']")
  case (Inl e)
  with assms show ?thesis
    by (simp add: create_epochs_result)
next
  case (Inr df1)
  then have "set (columns df1) = set (columns df0) - set [''condition'']"
    by (rule columns_dropcols)
  with assms Inr show ?thesis
    by (simp add: create_epochs_result columns_setcol)
qed


text \<open>
  Claim C9 does not hold of the notebook as it is written. The notebook imports NumPy
  under the name \<^verbatim>\<open>numpy\<close>, and \<^verbatim>\<open>preprocess\<close> reads \<^verbatim>\<open>np\<close>: for the
  recording sampled at 512 Hz the block ends with \<^verbatim>\<open>NameError\<close> before the notch
  filter, the exception is printed, and the recording comes back at 512 Hz, not
  resampled and with nothing logged about the rate.
\<close>

theorem preprocess_512_not_resampled:
  "preprocess notebook_globals (reads_as raw_512) raw_512
     = (raw_512\<lparr>applied := [SetChannelTypes, SetMontage ''standard_1020'']\<rparr>,
        [Printed NameError])
   \<and> sfreq (fst (preprocess notebook_globals (reads_as raw_512) raw_512)) = 512
   \<and> Resample 256 \<notin> set (applied (fst (preprocess notebook_globals (reads_as raw_512) raw_512)))"
  by (simp add: preprocess_def preprocess_try_def on_raw_def mne_call_def apply_op_def
      np_arange_def lookup_def say_def notebook_globals_def reads_as_def raw_512_def)

text \<open>
  Claim C7 does not hold of the notebook as it is written. The test for \<^verbatim>\<open>Pz\<close>
  reads \<^verbatim>\<open>df.epochs.columns\<close> instead of \<^verbatim>\<open>df_epochs.columns\<close> and raises; the
  exception is printed and the table is returned with the column \<^verbatim>\<open>condition\<close>
  dropped and the column \<^verbatim>\<open>count\<close> added, without a column \<^verbatim>\<open>Pz\<close> and with the
  values not rounded.
\<close>

theorem create_epochs_leaves_pz_out:
  "create_epochs notebook_globals (with_epochs (reads_as raw_512) epochs_without_pz) raw_512 10 0
     = Inr [(''time'', [Num 0, Num (1 / 256), Num (2 / 256)]),
            (''epoch'', [Num 0, Num 0, Num 0]),
            (''Fp1'', [Num (1234 / 1000), Num 2, Num 3]),
            (''Fp2'', [Num (3456 / 1000), Num 4, Num 5]),
            (''count'', [Num 0, Num (1 / 256), Num (2 / 256)])]
   \<and> getcol [(''time'', [Num 0, Num (1 / 256), Num (2 / 256)]),
            (''epoch'', [Num 0, Num 0, Num 0]),
            (''Fp1'', [Num (1234 / 1000), Num 2, Num 3]),
            (''Fp2'', [Num (3456 / 1000), Num 4, Num 5]),
            (''count'', [Num 0, Num (1 / 256), Num (2 / 256)])] ''Pz'' = Inl KeyError"
proof -
  have e: "epochs_to_data_frame (with_epochs (reads_as raw_512) epochs_without_pz) raw_512 10 0
             = Inr epochs_without_pz"
    by (simp add: with_epochs_def)
  have u: "[0..<3] = [0, 1, 2]"
    by (simp add: numeral_3_eq_3 numeral_2_eq_2)
  have d: "dropcols epochs_without_pz [''condition'']
             = Inr [(''time'', [Num 0, Num (1 / 256), Num (2 / 256)]),
                    (''epoch'', [Num 0, Num 0, Num 0]),
                    (''Fp1'', [Num (1234 / 1000), Num 2, Num 3]),
                    (''Fp2'', [Num (3456 / 1000), Num 4, Num 5])]"
    by (simp add: epochs_without_pz_def dropcols_def columns_def)
  have "create_epochs notebook_globals (with_epochs (reads_as raw_512) epochs_without_pz)
          raw_512 10 0
        = Inr [(''time'', [Num 0, Num (1 / 256), Num (2 / 256)]),
            (''epoch'', [Num 0, Num 0, Num 0]),
            (''Fp1'', [Num (1234 / 1000), Num 2, Num 3]),
            (''Fp2'', [Num (3456 / 1000), Num 4, Num 5]),
            (''count'', [Num 0, Num (1 / 256), Num (2 / 256)])]"
    unfolding create_epochs_result [OF e] d
    by (simp add: columns_def setcol_def nrows_def u)
  then show ?thesis
    by (simp add: getcol_def)
qed

section \<open>Properties of the interictal intervals\<close>

lemma zip_tl_nth:
  "zip (a # t) t = map (\<lambda>k. ((a # t) ! k, t ! k)) [0..<length t]"
  by (rule nth_equalityI) auto

lemma gaps_as_pairs:
  assumes "seizures \<noteq> []"
  shows "map (\<lambda>x. if x = 0 then (0, sz_onset (seizures ! x))
                   else (sz_end (seizures ! (x - 1)), sz_onset (seizures ! x)))
           [0..<length seizures]
         = (0, sz_onset (hd seizures))
           # map (\<lambda>(a, b). (sz_end a, sz_onset b)) (zip seizures (tl seizures))"
proof -
  from assms obtain a t where s: "seizures = a # t"
    by (cases seizures) auto
  have "[0..<length (a # t)] = 0 # map Suc [0..<length t]"
    by (simp add: upt_conv_Cons map_Suc_upt del: upt_Suc)
  then show ?thesis
    by (simp add: s zip_tl_nth comp_def del: upt_Suc)
qed

lemma interictal_intervals_result:
  assumes "seizures \<noteq> []" and "sfreq r \<noteq> 0"
  shows "interictal_intervals seizures r
           = Inr (map (\<lambda>(s, e). \<lparr>iv_start = s, iv_end = e, iv_label = ''interictal''\<rparr>)
                    (((0, sz_onset (hd seizures))
                      # map (\<lambda>(a, b). (sz_end a, sz_onset b)) (zip seizures (tl seizures)))
                     @ [(sz_duration (last seizures), of_nat (last_samp r) / sfreq r - 1)]))"
  using assms by (simp add: interictal_intervals_def Let_def gaps_as_pairs del: upt_Suc)

text \<open>
  The claim C8 as it is written fails on the last interval. For the recording of forty
  seconds with one seizure from second 12 to second 22, the code's last interval
  starts at 10, the duration of the seizure, and ends at \<open>10239 / 256 - 1\<close>, one
  second before the last sample, while the gap after the last seizure starts at 22
  and ends at the end of the recording.
\<close>

theorem last_interval_counterexample:
  "interictal_intervals [\<lparr>sz_onset = 12, sz_duration = 10, sz_end = 22\<rparr>] raw_one_seizure
     = Inr [\<lparr>iv_start = 0, iv_end = 12, iv_label = ''interictal''\<rparr>,
            \<lparr>iv_start = 10, iv_end = 9983 / 256, iv_label = ''interictal''\<rparr>]
   \<and> spec_interictal [\<lparr>sz_onset = 12, sz_duration = 10, sz_end = 22\<rparr>] (10239 / 256)
     = [(0, 12), (22, 10239 / 256)]
   \<and> of_nat (last_samp raw_one_seizure) / sfreq raw_one_seizure = (10239 / 256 :: rat)"
  by (simp add: interictal_intervals_def spec_interictal_def raw_one_seizure_def)

text \<open>
  Claim C8, as amended. For a table of seizures that is not empty (and a rate that is
  not 0) the construction returns one interval more than there are seizures, all
  labelled \<^verbatim>\<open>interictal\<close>: all but the last are the gap from 0 to the onset of the
  first seizure and the gaps from the end of each seizure to the onset of the next;
  the last one ends one second before the time of the last sample.
\<close>

theorem interictal_gaps:
  assumes "seizures \<noteq> []" and "sfreq r \<noteq> 0"
  shows "\<exists>ivs. interictal_intervals seizures r = Inr ivs
           \<and> length ivs = length seizures + 1
           \<and> map (\<lambda>iv. (iv_start iv, iv_end iv)) (butlast ivs)
               = (0, sz_onset (hd seizures))
                 # map (\<lambda>(a, b). (sz_end a, sz_onset b)) (zip seizures (tl seizures))
           \<and> iv_end (last ivs) = of_nat (last_samp r) / sfreq r - 1
           \<and> list_all (\<lambda>iv. iv_label iv = ''interictal'') ivs"
proof -
  define mk where "mk = (\<lambda>(s :: rat, e :: rat). \<lparr>iv_start = s, iv_end = e, iv_label = ''interictal''\<rparr>)"
  define gaps where "gaps = (0, sz_onset (hd seizures))
                 # map (\<lambda>(a, b). (sz_end a, sz_onset b)) (zip seizures (tl seizures))"
  define lst where "lst = (sz_duration (last seizures), of_nat (last_samp r) / sfreq r - 1)"
  define ivs where "ivs = map mk (gaps @ [lst])"
  have run: "interictal_intervals seizures r = Inr ivs"
    unfolding ivs_def mk_def gaps_def lst_def using assms by (rule interictal_intervals_result)
  have lg: "length gaps = length seizures"
    using assms(1) unfolding gaps_def by (cases seizures) simp_all
  have len: "length ivs = length seizures + 1"
    by (simp add: ivs_def lg)
  have sel: "\<And>p. (\<lambda>iv. (iv_start iv, iv_end iv)) (mk p) = p"
    by (simp add: mk_def split: prod.splits)
  have "butlast ivs = map mk gaps"
    by (simp add: ivs_def)
  then have "map (\<lambda>iv. (iv_start iv, iv_end iv)) (butlast ivs) = map (\<lambda>p. p) gaps"
    by (simp add: sel comp_def)
  then have bl: "map (\<lambda>iv. (iv_start iv, iv_end iv)) (butlast ivs) = gaps"
    by simp
  have "last ivs = mk lst"
    by (simp add: ivs_def)
  then have le: "iv_end (last ivs) = of_nat (last_samp r) / sfreq r - 1"
    by (simp add: mk_def lst_def)
  have "\<And>p. iv_label (mk p) = ''interictal''"
    by (simp add: mk_def split: prod.splits)
  then have lab: "list_all (\<lambda>iv. iv_label iv = ''interictal'') ivs"
    by (simp add: ivs_def list_all_iff)
  show ?thesis
  proof (intro exI conjI)
    show "interictal_intervals seizures r = Inr ivs"
      by (rule run)
    show "length ivs = length seizures + 1"
      by (rule len)
    show "map (\<lambda>iv. (iv_start iv, iv_end iv)) (butlast ivs)
            = (0, sz_onset (hd seizures))
              # map (\<lambda>(a, b). (sz_end a, sz_onset b)) (zip seizures (tl seizures))"
      using bl unfolding gaps_def .
    show "iv_end (last ivs) = of_nat (last_samp r) / sfreq r - 1"
      by (rule le)
    show "list_all (\<lambda>iv. iv_label iv = ''interictal'') ivs"
      by (rule lab)
  qed
qed

theorem interictal_gaps_witness:
  "snd (seizure_annotations raw_one_seizure) \<noteq> []
   \<and> sfreq raw_one_seizure \<noteq> 0
   \<and> (\<exists>ivs. interictal_intervals (snd (seizure_annotations raw_one_seizure)) raw_one_seizure
               = Inr ivs
            \<and> length ivs = length (snd (seizure_annotations raw_one_seizure)) + 1
            \<and> map (\<lambda>iv. (iv_start iv, iv_end iv)) (butlast ivs) = [(0, 12)]
            \<and> iv_end (last ivs) = 9983 / 256
            \<and> list_all (\<lambda>iv. iv_label iv = ''interictal'') ivs)"
proof -
  let ?s = "snd (seizure_annotations raw_one_seizure)"
  have ivs: "?s = [\<lparr>sz_onset = 12, sz_duration = 10, sz_end = 22\<rparr>]"
    by (simp add: seizure_annotations_def raw_one_seizure_def seizure_marker_def)
  have n: "?s \<noteq> []"
    by (simp add: ivs)
  have f: "sfreq raw_one_seizure \<noteq> 0"
    by (simp add: raw_one_seizure_def)
  have g: "(0, sz_onset (hd ?s)) # map (\<lambda>(a, b). (sz_end a, sz_onset b)) (zip ?s (tl ?s))
             = [(0, 12)]"
    by (simp add: ivs)
  have e: "of_nat (last_samp raw_one_seizure) / sfreq raw_one_seizure - 1 = (9983 / 256 :: rat)"
    by (simp add: raw_one_seizure_def)
  note w = interictal_gaps [OF n f, unfolded g e]
  show ?thesis
    by (intro conjI n f w)
qed

section \<open>Properties of the driver\<close>

lemma upt2: "[0..<2] = [0, Suc 0]"
  by (simp add: numeral_2_eq_2)

lemma short_reshaped:
  "reshaped_epochs (''np'' # notebook_globals) lib_short_seizure
     (loading lib_short_seizure ''data'' ''EXP_EMC_M15_0000615#01.edf'' True)
   = Inr ((''epoch'', [Num 0]) # map (\<lambda>ch. (ch, [Arr [Some 0, Some 0]])) eeg_channels
          @ [(''seizure'', [Num 0])])"
  by (simp add: lib_short_seizure_def reshaped_epochs_def loading_def load_raw_def load_raw_try_def no_seizures_check_def
      with_epochs_def reads_as_def raw_short_seizure_def py_in_def sublist_code seizure_marker_def
      preprocess_def preprocess_try_def on_raw_def mne_call_def apply_op_def np_arange_def
      lookup_def say_def upt2 seizure_annotations_def
      create_epochs_def create_epochs_try_def call_def global_df_epochs_columns_def
      notebook_globals_def epochs_all_channels_def eeg_channels_def dropcols_def columns_def
      setcol_def nrows_def
      labeling_def merge_asof_def getcol_def suffix_clash_def asof_backward_def right_cell_def
      reshape_df_def seizure_label_def group_keys_def group_of_def float32_array_def
      iat0_def series_mode_def)


lemma positions_none: "v \<notin> set c \<Longrightarrow> positions (\<lambda>x. x = v) c = []"
  by (auto simp: positions_def filter_empty_conv)

lemma balancer_no_seizure_rows:
  assumes col: "getcol df ''seizure'' = Inr seizure"
    and none: "Num 1 \<notin> set seizure"
    and drawn: "choice L (length (filter (\<lambda>c. c = Num 0) seizure)) 0 = []"
  shows "epochs_seizure_based L df = Inr (rows_at df [])"
proof -
  let ?p0 = "positions (\<lambda>c. c = Num 0) seizure"
  have ne: "df \<noteq> []"
    using col by (rule getcol_nonempty)
  have p1: "positions (\<lambda>c. c = Num 1) seizure = []"
    using none by (rule positions_none)
  have n1: "nrows (rows_at df []) = 0"
    using ne by (simp add: nrows_rows_at)
  have n0: "nrows (rows_at df ?p0) = length (filter (\<lambda>c. c = Num 0) seizure)"
    using ne by (simp add: nrows_rows_at length_positions)
  have "rows_at (rows_at df ?p0) [] = rows_at df (map (\<lambda>i. ?p0 ! i) [])"
    by (rule rows_at_rows_at) simp
  then have e: "rows_at (rows_at df ?p0) [] = rows_at df []"
    by simp
  have "concat_frames (rows_at df []) (rows_at df []) = rows_at df ([] @ [])"
    by (rule concat_rows_at)
  then have c: "concat_frames (rows_at df []) (rows_at df []) = rows_at df []"
    by simp
  show ?thesis
    using col by (simp add: epochs_seizure_based_def Let_def p1 n1 n0 drawn e c)
qed

lemma columns_rows_at: "columns (rows_at df idx) = columns df"
  by (induction df) (auto simp: columns_def rows_at_def)

text \<open>
  Claim C3, as amended. For a recording whose reshaped table has no row with the label
  1, the balancer returns the table with the same columns and no rows, without an
  exception (the draw of no row being empty), \<^verbatim>\<open>preprocessing\<close> returns it, and
  the loop hands it to the export as it does every other table: the file is written
  whenever the export does not raise.
\<close>

theorem no_seizure_epochs_empty_table:
  assumes "reshaped_epochs g L (loading L data_path file True) = Inr df"
    and "getcol df ''seizure'' = Inr seizure"
    and "Num 1 \<notin> set seizure"
    and "choice L (length (filter (\<lambda>c. c = Num 0) seizure)) 0 = []"
  shows "epochs_seizure_based L df = Inr (rows_at df [])
         \<and> nrows (rows_at df []) = 0
         \<and> columns (rows_at df []) = columns df
         \<and> preprocessing g L (loading L data_path file True) = Inr (rows_at df [])
         \<and> driver_step g L data_path output_folder file
             = (case df_conversion L (rows_at df []) output_folder
                       (splitext_root file @ ''_epoched.feather'') of
                  Inl e \<Rightarrow> None
                | Inr written \<Rightarrow> Some written)"
proof -
  have b: "epochs_seizure_based L df = Inr (rows_at df [])"
    using assms(2-4) by (rule balancer_no_seizure_rows)
  have "df \<noteq> []"
    using assms(2) by (rule getcol_nonempty)
  then have n: "nrows (rows_at df []) = 0"
    by (simp add: nrows_rows_at)
  have p: "preprocessing g L (loading L data_path file True) = Inr (rows_at df [])"
    using assms(1) b by (simp add: preprocessing_def)
  have d: "driver_step g L data_path output_folder file
             = (case df_conversion L (rows_at df []) output_folder
                       (splitext_root file @ ''_epoched.feather'') of
                  Inl e \<Rightarrow> None
                | Inr written \<Rightarrow> Some written)"
    using p by (simp add: driver_step_def)
  show ?thesis
    by (intro conjI b n columns_rows_at p d)
qed

lemma short_conversion:
  "df_conversion lib_short_seizure
     ((''epoch'', []) # map (\<lambda>ch. (ch, [])) eeg_channels @ [(''seizure'', [])])
     ''out'' ''EXP_EMC_M15_0000615#01_epoched.feather''
   = Inr (''out/EXP_EMC_M15_0000615#01_epoched.feather'',
          (''subject'', []) # (''epoch'', []) # map (\<lambda>ch. (ch, [])) eeg_channels
          @ [(''seizure'', [])])"
  by (simp add: lib_short_seizure_def df_conversion_def path_join_def extract_subject_id_def splitext_root_def
      rfind_def py_in_def sublist_code columns_def eeg_channels_def nrows_def with_epochs_def
      reads_as_def)


lemma short_balanced:
  "rows_at ((''epoch'', [Num 0]) # map (\<lambda>ch. (ch, [Arr [Some 0, Some 0]])) eeg_channels
            @ [(''seizure'', [Num 0])]) []
   = (''epoch'', []) # map (\<lambda>ch. (ch, [])) eeg_channels @ [(''seizure'', [])]"
  by (simp add: rows_at_def)

lemma short_root: "splitext_root ''EXP_EMC_M15_0000615#01.edf'' = ''EXP_EMC_M15_0000615#01''"
proof -
  have "list_ex (\<lambda>i. ''EXP_EMC_M15_0000615#01.edf'' ! i \<noteq> CHR ''.'') [0..<22]"
    unfolding list_ex_iff by (rule bexI [of _ 0]) simp_all
  then show ?thesis
    by (simp add: splitext_root_def rfind_def)
qed

lemma short_facts:
  "getcol ((''epoch'', [Num 0]) # map (\<lambda>ch. (ch, [Arr [Some 0, Some 0]])) eeg_channels
            @ [(''seizure'', [Num 0])]) ''seizure'' = Inr [Num 0]"
  "choice lib_short_seizure (length (filter (\<lambda>c. c = Num 0) [Num 0])) 0 = []"
  by (simp_all add: getcol_def eeg_channels_def lib_short_seizure_def with_epochs_def
      reads_as_def)

text \<open>
  The claim C3 as it is written fails: for the recording whose only seizure lasts three
  seconds the reshaped table has one epoch with the label 0 and none with the label 1,
  and the loop writes a file for it, with the columns of a balanced table and no row.
  (The recording is processed in a namespace in which \<^verbatim>\<open>np\<close> is bound and with an
  export that writes every table; with the notebook's own imports \<^verbatim>\<open>reshape_df\<close>
  raises for every recording.)
\<close>

theorem no_seizure_epochs_counterexample:
  "reshaped_epochs (''np'' # notebook_globals) lib_short_seizure
     (loading lib_short_seizure ''data'' ''EXP_EMC_M15_0000615#01.edf'' True)
   = Inr ((''epoch'', [Num 0]) # map (\<lambda>ch. (ch, [Arr [Some 0, Some 0]])) eeg_channels
          @ [(''seizure'', [Num 0])])
   \<and> driver_step (''np'' # notebook_globals) lib_short_seizure ''data'' ''out''
       ''EXP_EMC_M15_0000615#01.edf''
     = Some (''out/EXP_EMC_M15_0000615#01_epoched.feather'',
             (''subject'', []) # (''epoch'', []) # map (\<lambda>ch. (ch, [])) eeg_channels
             @ [(''seizure'', [])])"
proof -
  let ?df = "(''epoch'', [Num 0]) # map (\<lambda>ch. (ch, [Arr [Some 0, Some 0]])) eeg_channels
          @ [(''seizure'', [Num 0])]"
  have "epochs_seizure_based lib_short_seizure ?df = Inr (rows_at ?df [])"
    by (rule balancer_no_seizure_rows [OF short_facts(1) _ short_facts(2)]) simp
  then have "preprocessing (''np'' # notebook_globals) lib_short_seizure
               (loading lib_short_seizure ''data'' ''EXP_EMC_M15_0000615#01.edf'' True)
             = Inr ((''epoch'', []) # map (\<lambda>ch. (ch, [])) eeg_channels @ [(''seizure'', [])])"
    by (simp add: preprocessing_def short_reshaped short_balanced)
  then have "driver_step (''np'' # notebook_globals) lib_short_seizure ''data'' ''out''
               ''EXP_EMC_M15_0000615#01.edf''
             = Some (''out/EXP_EMC_M15_0000615#01_epoched.feather'',
                     (''subject'', []) # (''epoch'', []) # map (\<lambda>ch. (ch, [])) eeg_channels
                     @ [(''seizure'', [])])"
    by (simp add: driver_step_def short_root short_conversion)
  with short_reshaped show ?thesis
    by (intro conjI)
qed

theorem no_seizure_epochs_empty_table_witness:
  "reshaped_epochs (''np'' # notebook_globals) lib_short_seizure
     (loading lib_short_seizure ''data'' ''EXP_EMC_M15_0000615#01.edf'' True)
   = Inr ((''epoch'', [Num 0]) # map (\<lambda>ch. (ch, [Arr [Some 0, Some 0]])) eeg_channels
          @ [(''seizure'', [Num 0])])
   \<and> getcol ((''epoch'', [Num 0]) # map (\<lambda>ch. (ch, [Arr [Some 0, Some 0]])) eeg_channels
          @ [(''seizure'', [Num 0])]) ''seizure'' = Inr [Num 0]
   \<and> Num 1 \<notin> set [Num 0]
   \<and> choice lib_short_seizure (length (filter (\<lambda>c. c = Num 0) [Num 0])) 0 = []
   \<and> preprocessing (''np'' # notebook_globals) lib_short_seizure
        (loading lib_short_seizure ''data'' ''EXP_EMC_M15_0000615#01.edf'' True)
      = Inr ((''epoch'', []) # map (\<lambda>ch. (ch, [])) eeg_channels @ [(''seizure'', [])])"
proof -
  have n: "Num 1 \<notin> set [Num 0]"
    by simp
  note w = no_seizure_epochs_empty_table [OF short_reshaped short_facts(1) n short_facts(2),
      unfolded short_balanced]
  note p = w [THEN conjunct2, THEN conjunct2, THEN conjunct2, THEN conjunct1]
  show ?thesis
    by (intro conjI short_reshaped short_facts n p)
qed

section \<open>Properties of the table of an oversized recording\<close>

lemma seizure_label_cols:
  "seizure_label df = Inr x \<Longrightarrow>
   \<exists>epoch seizure. getcol df ''epoch'' = Inr epoch \<and> getcol df ''seizure'' = Inr seizure"
  by (auto simp: seizure_label_def split: sum.splits)

lemma reshape_all_zero:
  assumes run: "reshape_df g L df = Inr out"
    and col: "getcol df ''seizure'' = Inr (replicate n (Num 0))"
  shows "\<exists>m. getcol out ''seizure'' = Inr (replicate m (Num 0))
             \<and> getcol out ''epoch'' \<noteq> Inl KeyError \<and> nrows out = m"
proof -
  from reshape_df_success [OF run] obtain keys labels where
    "seizure_label df = Inr (keys, labels)"
    by blast
  from seizure_label_cols [OF this] col obtain epoch where
    ep: "getcol df ''epoch'' = Inr epoch"
    by auto
  have bin: "list_all (\<lambda>c. c = Num 0 \<or> c = Num 1) (replicate n (Num 0))"
    by (simp add: list_all_iff)
  note r = reshape_df_binary_labels [OF run ep col bin]
  have z: "\<And>k. count_list (group_of epoch (replicate n (Num 0)) k) (Num 1) = 0"
  proof -
    fix k
    have "set (group_of epoch (replicate n (Num 0)) k) \<subseteq> set (replicate n (Num 0))"
      by (rule group_of_subset)
    then have "Num 1 \<notin> set (group_of epoch (replicate n (Num 0)) k)"
      by auto
    then show "count_list (group_of epoch (replicate n (Num 0)) k) (Num 1) = 0"
      by (simp add: count_list_0_iff)
  qed
  from r have lab: "getcol out ''seizure'' = Inr (map (\<lambda>k. Num 0) (group_keys epoch))"
    by (simp add: z)
  have m: "map (\<lambda>k. Num 0 :: cell) (group_keys epoch) = replicate (length (group_keys epoch)) (Num 0)"
    by (simp add: map_replicate_const)
  from r have e: "getcol out ''epoch'' = Inr (map Num (group_keys epoch))"
    by simp
  from run obtain rest where "out = (''epoch'', map Num (group_keys epoch)) # rest"
    using e by (auto simp: reshape_df_def getcol_def split: sum.splits prod.splits)
  then have "nrows out = length (group_keys epoch)"
    by (simp add: nrows_def)
  with lab m e show ?thesis
    by auto
qed

lemma large_file_labels_zero:
  assumes run: "large_file_table g L df N = Inr out"
    and valid: "\<forall>m. list_all (\<lambda>i. i < m) (choice L m N)"
  shows "\<exists>k. getcol out ''seizure'' = Inr (replicate k (Num 0))"
proof -
  from run obtain df1 where d: "dropcols df [''condition''] = Inr df1"
    by (auto simp: large_file_table_def split: sum.splits)
  let ?in = "setcol df1 ''seizure'' (replicate (nrows df1) (Num 0))"
  from run d obtain df2 where r: "reshape_df g L ?in = Inr df2"
    by (auto simp: large_file_table_def split: sum.splits)
  from run d r have out: "out = rows_at df2 (choice L (nrows df2) N)"
    by (auto simp: large_file_table_def split: if_splits)
  have "getcol ?in ''seizure'' = Inr (replicate (nrows df1) (Num 0))"
    by (rule getcol_setcol_same)
  from reshape_all_zero [OF r this] obtain m where
    s: "getcol df2 ''seizure'' = Inr (replicate m (Num 0))" and n: "nrows df2 = m"
    by blast
  from valid have "list_all (\<lambda>i. i < m) (choice L m N)"
    by blast
  then have "map (\<lambda>i. replicate m (Num 0 :: cell) ! i) (choice L m N)
               = replicate (length (choice L m N)) (Num 0)"
    by (intro map_const_replicate) (auto simp: list_all_iff)
  with getcol_rows_at [OF s, of "choice L m N"] out n show ?thesis
    by auto
qed


end
